theory Spec2Isabelle
  imports Complex_Main
begin

section \<open>Circuit Construction Kit: a shallow embedding\<close>

text \<open>
  JavaScript numbers are modelled as real numbers: arithmetic is exact, \<open>Math.sin\<close> is
  \<^const>\<open>sin\<close>, \<open>Math.PI\<close> is \<^const>\<open>pi\<close>, \<open>Math.pow\<close> on a positive base is
  \<^const>\<open>powr\<close>. Rounding, overflow and NaN of IEEE doubles are outside the model.
  An axon \<open>Property\<close> is the value it holds; a listener linked to it is a function
  that the setter calls.
\<close>

subsection \<open>CCKCScreenView.stepOnce\<close>

text \<open>
  The view holds its chart nodes and reads the circuit's \<open>timeProperty\<close>. The chart
  nodes' own \<open>step\<close> (in the subclasses of CCKCChartNode) and the constant
  \<open>CCKCConstants.MAX_DT\<close> are parameters.
\<close>

record 'c CCKCScreenView =
  chartNodes :: "'c list"
  timeProperty :: real

definition stepOnce ::
  "real \<Rightarrow> (real \<Rightarrow> real \<Rightarrow> 'c \<Rightarrow> 'c) \<Rightarrow> real \<Rightarrow> 'c CCKCScreenView \<Rightarrow> 'c CCKCScreenView" where
  "stepOnce MAX_DT chartNode_step dt view =
     (if dt \<ge> MAX_DT then view
      else view\<lparr>chartNodes := map (chartNode_step (timeProperty view) dt) (chartNodes view)\<rparr>)"

text \<open>
  Claim C3. A frame whose \<open>dt\<close> is at or above \<open>MAX_DT\<close> is skipped: \<open>stepOnce\<close> returns
  the view as it was, whatever the chart nodes' \<open>step\<close> would do, so no chart node is
  stepped and nothing advances.
\<close>

theorem stepOnce_large_dt_skipped:
  "MAX_DT \<le> dt \<Longrightarrow> stepOnce MAX_DT chartNode_step dt view = view"
  by (simp add: stepOnce_def)

theorem stepOnce_large_dt_skipped_witness:
  "(1/2 :: real) \<le> 3 \<and>
   stepOnce (1/2) (\<lambda>t dt (c::real). c + dt) 3 \<lparr>chartNodes = [0, 7], timeProperty = 10\<rparr> =
     \<lparr>chartNodes = [0, 7], timeProperty = 10\<rparr>"
  using stepOnce_large_dt_skipped [of "1/2" 3 "\<lambda>t dt (c::real). c + dt"
      "\<lparr>chartNodes = [0, 7], timeProperty = 10\<rparr>"]
  by simp

text \<open>Below the threshold every chart node is stepped once, with the circuit's time.\<close>

lemma stepOnce_small_dt:
  "dt < MAX_DT \<Longrightarrow>
   chartNodes (stepOnce MAX_DT chartNode_step dt view) =
     map (chartNode_step (timeProperty view) dt) (chartNodes view)"
  by (simp add: stepOnce_def)

lemma stepOnce_small_dt_example:
  "stepOnce (1/2) (\<lambda>t dt (c::real). c + dt) (1/4) \<lparr>chartNodes = [0, 7], timeProperty = 10\<rparr> =
     \<lparr>chartNodes = [1/4, 29/4], timeProperty = 10\<rparr>"
  by (simp add: stepOnce_def)

subsection \<open>ACVoltage (2015-2019): step and the frequency listener\<close>

record ACVoltage =
  voltageProperty :: real
  maximumVoltageProperty :: real
  frequencyProperty :: real
  phase :: real
  time :: real

text \<open>The constructor: \<open>voltageProperty\<close> starts at 0, the frequency at 0.5, phase and time at 0.\<close>

definition new_ACVoltage :: "real \<Rightarrow> ACVoltage" where
  "new_ACVoltage voltage =
     \<lparr>voltageProperty = 0, maximumVoltageProperty = voltage, frequencyProperty = 0.5,
      phase = 0, time = 0\<rparr>"

text \<open>
  The listener linked to \<open>frequencyProperty\<close>. The old value is \<open>null\<close> in the call
  that \<open>link\<close> makes at once, and \<open>null\<close> is 0 in a product.
\<close>

definition frequencyListener :: "real \<Rightarrow> real option \<Rightarrow> ACVoltage \<Rightarrow> ACVoltage" where
  "frequencyListener frequency oldFrequency this =
     (let oldArgument =
            2 * pi * (case oldFrequency of None \<Rightarrow> 0 | Some f \<Rightarrow> f) * time this + phase this
      in this\<lparr>phase := oldArgument - 2 * pi * frequency * time this\<rparr>)"

text \<open>
  \<open>frequencyProperty.set\<close>: a Property stores the value and notifies its listeners
  with the new and the old value, and does nothing when the value is the one it holds.
\<close>

definition set_frequencyProperty :: "real \<Rightarrow> ACVoltage \<Rightarrow> ACVoltage" where
  "set_frequencyProperty frequency this =
     (if frequency = frequencyProperty this then this
      else frequencyListener frequency (Some (frequencyProperty this))
             (this\<lparr>frequencyProperty := frequency\<rparr>))"

definition ACVoltage_step :: "real \<Rightarrow> real \<Rightarrow> ACVoltage \<Rightarrow> ACVoltage" where
  "ACVoltage_step t dt this =
     (this\<lparr>time := t\<rparr>)
       \<lparr>voltageProperty :=
          maximumVoltageProperty this * sin (2 * pi * frequencyProperty this * t + phase this)\<rparr>"

subsection \<open>ACVoltage (2015-2021): the phase is a Property in degrees\<close>

record ACVoltage21 =
  voltageProperty21 :: real
  maximumVoltageProperty21 :: real
  frequencyProperty21 :: real
  phaseProperty21 :: real
  time21 :: real

definition MAX_VOLTAGE :: real where
  "MAX_VOLTAGE = 120"

text \<open>
  \<open>super.step\<close> is \<open>VoltageSource.step\<close>, which is not among the sources: it is the
  parameter \<open>super_step\<close>, run first as in the code.
\<close>

definition ACVoltage21_step ::
  "(real \<Rightarrow> real \<Rightarrow> ACVoltage21 \<Rightarrow> ACVoltage21) \<Rightarrow> real \<Rightarrow> real \<Rightarrow> ACVoltage21 \<Rightarrow> ACVoltage21" where
  "ACVoltage21_step super_step t dt this0 =
     (let this = (super_step t dt this0)\<lparr>time21 := t\<rparr>
      in this\<lparr>voltageProperty21 :=
           maximumVoltageProperty21 this *
           sin (2 * pi * frequencyProperty21 this * t + phaseProperty21 this * pi / 180)\<rparr>)"

text \<open>
  Claim C2. After \<open>step(t, dt)\<close> the voltage of an AC source is
  \<open>Vmax * sin(2 \<pi> f t + phase)\<close>: in the 2019 variant with the stored phase in radians, in
  the 2021 variant with \<open>phaseProperty\<close> in degrees, converted to radians. The amplitude,
  frequency and phase are the element's own: \<open>step\<close> leaves them as they are, in the 2021
  variant as \<open>super.step\<close> hands them over, and only stores the time and the voltage.
\<close>

theorem ACVoltage_step_voltage:
  "voltageProperty (ACVoltage_step t dt this) =
     maximumVoltageProperty this * sin (2 * pi * frequencyProperty this * t + phase this)
   \<and> maximumVoltageProperty (ACVoltage_step t dt this) = maximumVoltageProperty this
   \<and> frequencyProperty (ACVoltage_step t dt this) = frequencyProperty this
   \<and> phase (ACVoltage_step t dt this) = phase this
   \<and> time (ACVoltage_step t dt this) = t
   \<and> voltageProperty21 (ACVoltage21_step super_step t dt this21) =
       maximumVoltageProperty21 (super_step t dt this21) *
       sin (2 * pi * frequencyProperty21 (super_step t dt this21) * t +
            (phaseProperty21 (super_step t dt this21) * pi / 180))
   \<and> maximumVoltageProperty21 (ACVoltage21_step super_step t dt this21) =
       maximumVoltageProperty21 (super_step t dt this21)
   \<and> frequencyProperty21 (ACVoltage21_step super_step t dt this21) =
       frequencyProperty21 (super_step t dt this21)
   \<and> phaseProperty21 (ACVoltage21_step super_step t dt this21) =
       phaseProperty21 (super_step t dt this21)
   \<and> time21 (ACVoltage21_step super_step t dt this21) = t
   \<and> voltageProperty21 (ACVoltage21_step super_step t dt this21) =
       maximumVoltageProperty21 (ACVoltage21_step super_step t dt this21) *
       sin (2 * pi * frequencyProperty21 (ACVoltage21_step super_step t dt this21) * t +
            (phaseProperty21 (ACVoltage21_step super_step t dt this21) * pi / 180))"
  by (simp add: ACVoltage_step_def ACVoltage21_step_def Let_def)

text \<open>
  With a \<open>super.step\<close> that changes nothing the amplitude, frequency and phase are those
  of the element before the step: an amplitude of 9 V at a phase of 90 degrees gives 9 V at
  time 0, and 0 V at a phase of 0.
\<close>

lemma ACVoltage21_step_plain:
  "voltageProperty21 (ACVoltage21_step (\<lambda>t dt this. this) t dt this21) =
     maximumVoltageProperty21 this21 *
     sin (2 * pi * frequencyProperty21 this21 * t + phaseProperty21 this21 * pi / 180)"
  by (simp add: ACVoltage21_step_def Let_def)

lemma ACVoltage21_step_quarter_phase:
  "voltageProperty21 (ACVoltage21_step (\<lambda>t dt this. this) 0 dt
     \<lparr>voltageProperty21 = 0, maximumVoltageProperty21 = 9, frequencyProperty21 = 1 / 2,
      phaseProperty21 = 90, time21 = 0\<rparr>) = 9"
  by (simp add: ACVoltage21_step_def Let_def)

lemma ACVoltage21_step_zero_phase:
  "voltageProperty21 (ACVoltage21_step (\<lambda>t dt this. this) 0 dt
     \<lparr>voltageProperty21 = 5, maximumVoltageProperty21 = 9, frequencyProperty21 = 1 / 2,
      phaseProperty21 = 0, time21 = 0\<rparr>) = 0"
  by (simp add: ACVoltage21_step_def Let_def)

text \<open>
  The amplitude of the 2021 variant has the range \<open>[0, MAX_VOLTAGE]\<close>, so the value that
  \<open>step\<close> stores lies in the range \<open>[-MAX_VOLTAGE, MAX_VOLTAGE]\<close> declared for
  \<open>voltageProperty\<close>.
\<close>

lemma ACVoltage21_step_in_range:
  assumes "0 \<le> maximumVoltageProperty21 (super_step t dt this)"
    and "maximumVoltageProperty21 (super_step t dt this) \<le> MAX_VOLTAGE"
  shows "\<bar>voltageProperty21 (ACVoltage21_step super_step t dt this)\<bar> \<le> MAX_VOLTAGE"
proof -
  let ?m = "maximumVoltageProperty21 (super_step t dt this)"
  let ?a = "2 * pi * frequencyProperty21 (super_step t dt this) * t
            + phaseProperty21 (super_step t dt this) * pi / 180"
  have "\<bar>?m * sin ?a\<bar> = ?m * \<bar>sin ?a\<bar>"
    using assms(1) by (simp add: abs_mult)
  also have "\<dots> \<le> ?m * 1"
    using assms(1) by (intro mult_left_mono) simp_all
  finally have "\<bar>?m * sin ?a\<bar> \<le> MAX_VOLTAGE"
    using assms(2) by simp
  then show ?thesis
    by (simp add: ACVoltage21_step_def Let_def)
qed

text \<open>
  Claim C9. When the frequency of a 2019 AC source changes, the listener stores a phase
  with which the argument of the sine at the element's time is the one it was before:
  \<open>2 \<pi> f\<^sub>n\<^sub>e\<^sub>w t + phase\<^sub>n\<^sub>e\<^sub>w = 2 \<pi> f\<^sub>o\<^sub>l\<^sub>d t + phase\<^sub>o\<^sub>l\<^sub>d\<close>. The edit leaves the stored voltage
  alone, and a step at that same time gives the voltage it gave before the edit.
\<close>

theorem set_frequencyProperty_phase_matching:
  "frequencyProperty (set_frequencyProperty f this) = f
   \<and> time (set_frequencyProperty f this) = time this
   \<and> 2 * pi * f * time this + phase (set_frequencyProperty f this) =
       2 * pi * frequencyProperty this * time this + phase this
   \<and> voltageProperty (set_frequencyProperty f this) = voltageProperty this
   \<and> voltageProperty (ACVoltage_step (time this) dt (set_frequencyProperty f this)) =
       voltageProperty (ACVoltage_step (time this) dt this)"
  by (simp add: set_frequencyProperty_def frequencyListener_def ACVoltage_step_def Let_def)

text \<open>The call that \<open>link\<close> makes in the constructor leaves the phase at 0.\<close>

lemma frequencyListener_initial:
  "frequencyListener 0.5 None (new_ACVoltage v) = new_ACVoltage v"
  by (simp add: frequencyListener_def new_ACVoltage_def)

subsection \<open>Light bulb brightness\<close>

text \<open>
  \<open>Util.clamp\<close> and \<open>Utils.linear\<close> belong to the dot library, not to this repository:
  \<open>clamp(value, min, max)\<close> returns \<open>min\<close> below it, \<open>max\<close> above it and the value
  otherwise; \<open>linear(a1, a2, b1, b2, a3)\<close> is the line through \<open>(a1, b1)\<close> and
  \<open>(a2, b2)\<close> at \<open>a3\<close>.
\<close>

definition Util_clamp :: "real \<Rightarrow> real \<Rightarrow> real \<Rightarrow> real" where
  "Util_clamp v lo hi = (if v < lo then lo else if v > hi then hi else v)"

definition Utils_linear :: "real \<Rightarrow> real \<Rightarrow> real \<Rightarrow> real \<Rightarrow> real \<Rightarrow> real" where
  "Utils_linear a1 a2 b1 b2 a3 = (b2 - b1) / (a2 - a1) * (a3 - a1) + b1"

text \<open>
  The multilink listener of \<open>common/view/CCKLightBulbNode.js\<close>: the value it stores in
  \<open>brightnessProperty\<close>, from the current, the running flag and the voltage difference.
\<close>

definition updateBrightness_common :: "real \<Rightarrow> bool \<Rightarrow> real \<Rightarrow> real" where
  "updateBrightness_common current running voltageDifference =
     (let power = \<bar>current * voltageDifference\<bar>;
          maxPower = 60;
          minPower = 1 / 10 ^ 6;
          power = min power (maxPower * 15);
          power = max power minPower;
          brightness = (power / maxPower) powr 0.354 * 0.4
      in Util_clamp brightness 0 1)"

text \<open>The listener of \<open>view/CCKLightBulbNode.js\<close>, which switches the bulb off at the floor.\<close>

definition updateBrightness :: "real \<Rightarrow> bool \<Rightarrow> real \<Rightarrow> real" where
  "updateBrightness current running voltageDifference =
     (let power = \<bar>current * voltageDifference\<bar>;
          maxPower = 60;
          minPower = 1 / 10 ^ 6;
          power = min power (maxPower * 15);
          power = max power minPower;
          brightness = (power / maxPower) powr 0.354 * 0.4;
          brightness = (if power \<le> minPower then 0 else brightness)
      in Util_clamp brightness 0 1)"

text \<open>The power after the two clamps, as both listeners compute it.\<close>

definition clampedPower :: "real \<Rightarrow> real \<Rightarrow> real" where
  "clampedPower current voltageDifference =
     max (min \<bar>current * voltageDifference\<bar> (60 * 15)) (1 / 10 ^ 6)"

text \<open>
  \<open>CustomLightBulbNode.update\<close>. The assertion is a branch: a brightness outside
  \<open>[0, 1]\<close> is the error.
\<close>

datatype error = AssertionError

record CustomLightBulbNode =
  visible :: bool
  baseOnly :: bool
  brightnessProperty :: real
  backNode_visible :: bool
  backNode_imageOpacity :: real
  raysNode_brightness :: real

definition CustomLightBulbNode_update :: "CustomLightBulbNode \<Rightarrow> error + CustomLightBulbNode" where
  "CustomLightBulbNode_update this =
     (if visible this \<and> \<not> baseOnly this then
        (let brightness = brightnessProperty this
         in if \<not> (brightness \<ge> 0 \<and> brightness \<le> 1) then Inl AssertionError
            else
              (let this = this\<lparr>backNode_visible := (brightness > 0)\<rparr>;
                   this = (if backNode_visible this
                           then this\<lparr>backNode_imageOpacity :=
                                  Util_clamp (Utils_linear 0 0.5 0 1 brightness) 0 1\<rparr>
                           else this)
               in Inr (this\<lparr>raysNode_brightness := brightness\<rparr>)))
      else Inr this)"

text \<open>
  Storing a new value in \<open>brightnessProperty\<close> calls the observer linked to it, which
  is \<open>update\<close>; storing the value it holds does nothing.
\<close>

definition set_brightnessProperty :: "real \<Rightarrow> CustomLightBulbNode \<Rightarrow> error + CustomLightBulbNode" where
  "set_brightnessProperty b this =
     (if b = brightnessProperty this then Inr this
      else CustomLightBulbNode_update (this\<lparr>brightnessProperty := b\<rparr>))"

lemma Util_clamp_bounds: "lo \<le> hi \<Longrightarrow> lo \<le> Util_clamp v lo hi \<and> Util_clamp v lo hi \<le> hi"
  by (simp add: Util_clamp_def)

lemma updateBrightness_common_clampedPower:
  "updateBrightness_common current running voltageDifference =
     Util_clamp ((clampedPower current voltageDifference / 60) powr 0.354 * 0.4) 0 1"
  by (simp add: updateBrightness_common_def clampedPower_def Let_def)

lemma updateBrightness_clampedPower:
  "updateBrightness current running voltageDifference =
     (if clampedPower current voltageDifference \<le> 1 / 10 ^ 6 then 0
      else Util_clamp ((clampedPower current voltageDifference / 60) powr 0.354 * 0.4) 0 1)"
  by (simp add: updateBrightness_def clampedPower_def Let_def Util_clamp_def)

lemma clampedPower_range:
  "1 / 10 ^ 6 \<le> clampedPower current voltageDifference
   \<and> clampedPower current voltageDifference \<le> 900"
  by (simp add: clampedPower_def)

lemma updateBrightness_common_range:
  "0 \<le> updateBrightness_common current running voltageDifference
   \<and> updateBrightness_common current running voltageDifference \<le> 1"
  unfolding updateBrightness_common_clampedPower by (rule Util_clamp_bounds) simp

lemma updateBrightness_range:
  "0 \<le> updateBrightness current running voltageDifference
   \<and> updateBrightness current running voltageDifference \<le> 1"
  unfolding updateBrightness_clampedPower using Util_clamp_bounds [of 0 1] by simp

lemma update_accepts:
  "0 \<le> brightnessProperty this \<Longrightarrow> brightnessProperty this \<le> 1 \<Longrightarrow>
   CustomLightBulbNode_update this \<noteq> Inl AssertionError"
  by (simp add: CustomLightBulbNode_update_def Let_def)

lemma set_brightnessProperty_stored:
  "set_brightnessProperty b this = Inr this' \<Longrightarrow> brightnessProperty this' = b"
  by (auto simp: set_brightnessProperty_def CustomLightBulbNode_update_def Let_def
      split: if_splits)

text \<open>
  Claim C10. For every current and voltage difference the power after the clamps lies in
  \<open>[1e-6, 900]\<close>, both listeners store a brightness in \<open>[0, 1]\<close> (the later one stores 0
  when the power is at the floor), and \<open>update\<close> run on the stored value passes its
  assertion.
\<close>

theorem brightness_in_unit_interval:
  "1 / 10 ^ 6 \<le> clampedPower current voltageDifference
   \<and> clampedPower current voltageDifference \<le> 900
   \<and> updateBrightness_common current running voltageDifference =
       Util_clamp ((clampedPower current voltageDifference / 60) powr 0.354 * 0.4) 0 1
   \<and> updateBrightness current running voltageDifference =
       (if clampedPower current voltageDifference \<le> 1 / 10 ^ 6 then 0
        else Util_clamp ((clampedPower current voltageDifference / 60) powr 0.354 * 0.4) 0 1)
   \<and> 0 \<le> updateBrightness_common current running voltageDifference
   \<and> updateBrightness_common current running voltageDifference \<le> 1
   \<and> 0 \<le> updateBrightness current running voltageDifference
   \<and> updateBrightness current running voltageDifference \<le> 1
   \<and> set_brightnessProperty (updateBrightness_common current running voltageDifference) node
       \<noteq> Inl AssertionError
   \<and> set_brightnessProperty (updateBrightness current running voltageDifference) node
       \<noteq> Inl AssertionError"
proof -
  have stored: "set_brightnessProperty b node \<noteq> Inl AssertionError" if "0 \<le> b" and "b \<le> 1" for b
    using that update_accepts [of "node\<lparr>brightnessProperty := b\<rparr>"]
    by (simp add: set_brightnessProperty_def)
  have "set_brightnessProperty (updateBrightness_common current running voltageDifference) node
          \<noteq> Inl AssertionError"
    by (rule stored) (simp_all add: updateBrightness_common_range)
  moreover have "set_brightnessProperty (updateBrightness current running voltageDifference) node
          \<noteq> Inl AssertionError"
    by (rule stored) (simp_all add: updateBrightness_range)
  ultimately show ?thesis
    using clampedPower_range [of current voltageDifference]
      updateBrightness_common_range [of current running voltageDifference]
      updateBrightness_range [of current running voltageDifference]
      updateBrightness_common_clampedPower [of current running voltageDifference]
      updateBrightness_clampedPower [of current running voltageDifference]
    by simp
qed

text \<open>
  The last clamp matters: at the power cap the unclamped brightness is above 1, and a
  brightness outside the unit interval does fail the assertion of a visible bulb.
\<close>

lemma update_rejects:
  "visible this \<Longrightarrow> \<not> baseOnly this \<Longrightarrow> brightnessProperty this > 1 \<Longrightarrow>
   CustomLightBulbNode_update this = Inl AssertionError"
  by (simp add: CustomLightBulbNode_update_def Let_def)

lemma updateBrightness_zero_current:
  "updateBrightness 0 running voltageDifference = 0"
  by (simp add: updateBrightness_clampedPower clampedPower_def)

subsection \<open>Voltmeter readings: CircuitLayerNode.getVoltageConnection and getVoltage\<close>

type_synonym Vector2 = "real \<times> real"

definition Vector2_minus :: "Vector2 \<Rightarrow> Vector2 \<Rightarrow> Vector2" where
  "Vector2_minus p q = (fst p - fst q, snd p - snd q)"

definition Vector2_dot :: "Vector2 \<Rightarrow> Vector2 \<Rightarrow> real" where
  "Vector2_dot p q = fst p * fst q + snd p * snd q"

definition magnitudeSquared :: "Vector2 \<Rightarrow> real" where
  "magnitudeSquared p = Vector2_dot p p"

definition magnitude :: "Vector2 \<Rightarrow> real" where
  "magnitude p = sqrt (magnitudeSquared p)"

definition Vector2_distance :: "Vector2 \<Rightarrow> Vector2 \<Rightarrow> real" where
  "Vector2_distance p q = magnitude (Vector2_minus p q)"

record Vertex =
  index :: nat
  positionProperty :: Vector2
  vertexVoltageProperty :: real
  insideTrueBlackBoxProperty :: bool

record VoltageConnection =
  vertex :: Vertex
  voltage :: real

record CircuitElement =
  startVertexProperty :: Vertex
  endVertexProperty :: Vertex
  startPositionProperty :: Vector2
  endPositionProperty :: Vector2
  isMetallic :: bool
  isSwitch :: bool
  elementInsideTrueBlackBoxProperty :: bool

text \<open>
  The view of a circuit element: its hit tests are functions of the probe position
  (the two side tests exist on switch nodes).
\<close>

record CircuitElementNode =
  circuitElement :: CircuitElement
  containsSensorPoint :: "Vector2 \<Rightarrow> bool"
  startSideContainsSensorPoint :: "Vector2 \<Rightarrow> bool"
  endSideContainsSensorPoint :: "Vector2 \<Rightarrow> bool"

definition SOLDER_RADIUS :: real where
  "SOLDER_RADIUS = 11.2"

text \<open>
  The loop of \<open>hitCircuitElementNode\<close>, over the nodes from the front to the back: an
  element whose node does not exist yet is skipped, an element inside a true black box
  counts only while the model is revealing.
\<close>

fun searchFrontToBack ::
  "bool \<Rightarrow> Vector2 \<Rightarrow> CircuitElementNode option list \<Rightarrow> CircuitElementNode option" where
  "searchFrontToBack revealingProperty position [] = None"
| "searchFrontToBack revealingProperty position (None # rest) =
     searchFrontToBack revealingProperty position rest"
| "searchFrontToBack revealingProperty position (Some circuitElementNode # rest) =
     (let trueBlackBox = elementInsideTrueBlackBoxProperty (circuitElement circuitElementNode);
          revealing = (if trueBlackBox then revealingProperty else True)
      in if revealing \<and> containsSensorPoint circuitElementNode position
         then Some circuitElementNode
         else searchFrontToBack revealingProperty position rest)"

definition hitCircuitElementNode ::
  "(CircuitElement \<Rightarrow> CircuitElementNode option) \<Rightarrow> bool \<Rightarrow> CircuitElement list \<Rightarrow>
   Vector2 \<Rightarrow> (CircuitElement \<Rightarrow> bool) \<Rightarrow> CircuitElementNode option" where
  "hitCircuitElementNode getCircuitElementNode revealingProperty circuitElements position flt =
     (let circuitElementNodes = map getCircuitElementNode (filter flt circuitElements)
      in searchFrontToBack revealingProperty position (rev circuitElementNodes))"

text \<open>
  \<open>getVoltageConnection\<close>. The solder nodes are given by their vertices, in the order
  in which \<open>_.values\<close> lists them; \<open>_.find\<close> takes the first one that the probe touches.
\<close>

definition getVoltageConnection ::
  "Vertex list \<Rightarrow> (CircuitElement \<Rightarrow> CircuitElementNode option) \<Rightarrow> bool \<Rightarrow>
   CircuitElement list \<Rightarrow> Vector2 \<Rightarrow> VoltageConnection option" where
  "getVoltageConnection solderNodes getCircuitElementNode revealingProperty circuitElements probePosition =
     (case find (\<lambda>v. Vector2_distance probePosition (positionProperty v) \<le> SOLDER_RADIUS) solderNodes of
        Some hitVertex \<Rightarrow>
          Some \<lparr>vertex = hitVertex, voltage = vertexVoltageProperty hitVertex\<rparr>
      | None \<Rightarrow>
         (case hitCircuitElementNode getCircuitElementNode revealingProperty circuitElements
                 probePosition isMetallic of
            Some metallicCircuitElement \<Rightarrow>
              (let startPoint = startPositionProperty (circuitElement metallicCircuitElement);
                   endPoint = endPositionProperty (circuitElement metallicCircuitElement);
                   segmentVector = Vector2_minus endPoint startPoint;
                   probeVector = Vector2_minus probePosition startPoint;
                   distanceAlongSegment =
                     (if magnitude segmentVector = 0 then 0
                      else Vector2_dot probeVector segmentVector / magnitudeSquared segmentVector);
                   distanceAlongSegment = Util_clamp distanceAlongSegment 0 1;
                   voltageAlongWire = Utils_linear 0 1
                     (vertexVoltageProperty (startVertexProperty (circuitElement metallicCircuitElement)))
                     (vertexVoltageProperty (endVertexProperty (circuitElement metallicCircuitElement)))
                     distanceAlongSegment
               in Some \<lparr>vertex = startVertexProperty (circuitElement metallicCircuitElement),
                         voltage = voltageAlongWire\<rparr>)
          | None \<Rightarrow>
             (case hitCircuitElementNode getCircuitElementNode revealingProperty circuitElements
                     probePosition isSwitch of
                Some switchNode \<Rightarrow>
                  (if startSideContainsSensorPoint switchNode probePosition then
                     Some \<lparr>vertex = startVertexProperty (circuitElement switchNode),
                           voltage = vertexVoltageProperty (startVertexProperty (circuitElement switchNode))\<rparr>
                   else if endSideContainsSensorPoint switchNode probePosition then
                     Some \<lparr>vertex = endVertexProperty (circuitElement switchNode),
                           voltage = vertexVoltageProperty (endVertexProperty (circuitElement switchNode))\<rparr>
                   else None)
              | None \<Rightarrow> None)))"


lemma sqrt_le_iff_sq: "0 \<le> r \<Longrightarrow> (sqrt x \<le> r) = (x \<le> r^2)"
  by (metis real_sqrt_le_iff real_sqrt_abs abs_of_nonneg)

lemma Vector2_distance_le:
  "0 \<le> r \<Longrightarrow> (Vector2_distance p q \<le> r) = ((fst p - fst q)^2 + (snd p - snd q)^2 \<le> r^2)"
  by (simp add: Vector2_distance_def magnitude_def magnitudeSquared_def Vector2_dot_def
      Vector2_minus_def sqrt_le_iff_sq power2_eq_square)

lemma solder_hit:
  "(Vector2_distance p q \<le> SOLDER_RADIUS) =
     ((fst p - fst q)^2 + (snd p - snd q)^2 \<le> SOLDER_RADIUS^2)"
  by (rule Vector2_distance_le) (simp add: SOLDER_RADIUS_def)


text \<open>
  Three vertices for the examples: two outside any black box, 100 apart, at 9 V and 0 V,
  and one inside a true black box.
\<close>

definition vertexA :: Vertex where
  "vertexA = \<lparr>index = 0, positionProperty = (0, 0), vertexVoltageProperty = 9,
              insideTrueBlackBoxProperty = False\<rparr>"

definition vertexB :: Vertex where
  "vertexB = \<lparr>index = 1, positionProperty = (100, 0), vertexVoltageProperty = 0,
              insideTrueBlackBoxProperty = False\<rparr>"



lemma probe_hits_vertexB:
  "find (\<lambda>v. Vector2_distance (103, 4) (positionProperty v) \<le> SOLDER_RADIUS) [vertexA, vertexB]
     = Some vertexB"
  unfolding solder_hit
  by (simp add: vertexA_def vertexB_def SOLDER_RADIUS_def power2_eq_square)


text \<open>
  A probe on a metallic element away from the solder reads the voltage interpolated
  along the element: half way along a wire from 9 V to 0 V it reads 4.5 V.
\<close>

definition wireAB :: CircuitElement where
  "wireAB = \<lparr>startVertexProperty = vertexA, endVertexProperty = vertexB,
             startPositionProperty = (0, 0), endPositionProperty = (100, 0),
             isMetallic = True, isSwitch = False, elementInsideTrueBlackBoxProperty = False\<rparr>"

lemma getVoltageConnection_along_wire:
  "getVoltageConnection [vertexA, vertexB]
     (\<lambda>e. Some \<lparr>circuitElement = e, containsSensorPoint = (\<lambda>p. snd p = 0),
                 startSideContainsSensorPoint = (\<lambda>p. False),
                 endSideContainsSensorPoint = (\<lambda>p. False)\<rparr>)
     False [wireAB] (50, 0) = Some \<lparr>vertex = vertexA, voltage = 9 / 2\<rparr>"
proof -
  have "find (\<lambda>v. Vector2_distance (50, 0) (positionProperty v) \<le> SOLDER_RADIUS) [vertexA, vertexB]
          = None"
    unfolding solder_hit
    by (simp add: vertexA_def vertexB_def SOLDER_RADIUS_def power2_eq_square)
  then show ?thesis
    by (simp add: getVoltageConnection_def hitCircuitElementNode_def wireAB_def Let_def
        magnitude_def magnitudeSquared_def Vector2_dot_def Vector2_minus_def
        Util_clamp_def Utils_linear_def vertexA_def vertexB_def)
qed

subsection \<open>FixedLengthCircuitElement: the constructor's length check\<close>

text \<open>
  The constructor measures the distance between the two vertices and asserts that it is
  the given length up to \<open>1e-6\<close>. The super constructor (\<open>CircuitElement\<close>) is not among
  the sources; the fields set here are the two lengths.
\<close>

record FixedLengthCircuitElement =
  startVertex :: Vertex
  endVertex :: Vertex
  distanceBetweenVertices :: real
  electronPathLength :: real

definition new_FixedLengthCircuitElement ::
  "real \<Rightarrow> Vertex \<Rightarrow> Vertex \<Rightarrow> error + FixedLengthCircuitElement" where
  "new_FixedLengthCircuitElement distanceBetweenVertices' startVertex' endVertex' =
     (let measuredLength =
            Vector2_distance (positionProperty startVertex') (positionProperty endVertex')
      in if \<not> (\<bar>distanceBetweenVertices' - measuredLength\<bar> < 1 / 10 ^ 6) then Inl AssertionError
         else Inr \<lparr>startVertex = startVertex', endVertex = endVertex',
                   distanceBetweenVertices = distanceBetweenVertices',
                   electronPathLength = distanceBetweenVertices'\<rparr>)"

lemma Vector2_distance_self: "Vector2_distance p p = 0"
  by (simp add: Vector2_distance_def magnitude_def magnitudeSquared_def Vector2_dot_def
      Vector2_minus_def)

lemma new_FixedLengthCircuitElement_length:
  assumes "new_FixedLengthCircuitElement d s e = Inr el"
  shows "\<bar>d - Vector2_distance (positionProperty s) (positionProperty e)\<bar> < 1 / 10 ^ 6"
    and "startVertex el = s" and "endVertex el = e" and "distanceBetweenVertices el = d"
  using assms by (auto simp: new_FixedLengthCircuitElement_def Let_def split: if_splits)

text \<open>
  With a length of at least \<open>1e-6\<close> a construction that passes the assertion has its two
  vertices at different positions, so they are two vertices.
\<close>

lemma new_FixedLengthCircuitElement_distinct:
  assumes "new_FixedLengthCircuitElement d s e = Inr el" and "1 / 10 ^ 6 \<le> d"
  shows "positionProperty s \<noteq> positionProperty e" and "s \<noteq> e"
proof -
  have close: "\<bar>d - Vector2_distance (positionProperty s) (positionProperty e)\<bar> < 1 / 10 ^ 6"
    using assms(1) by (rule new_FixedLengthCircuitElement_length)
  show "positionProperty s \<noteq> positionProperty e"
  proof
    assume "positionProperty s = positionProperty e"
    then have "Vector2_distance (positionProperty s) (positionProperty e) = 0"
      by (simp add: Vector2_distance_self)
    with close assms(2) show False by simp
  qed
  then show "s \<noteq> e" by auto
qed

text \<open>The check is about the length only: with length 0 one vertex can be given twice.\<close>

lemma new_FixedLengthCircuitElement_same_vertex:
  "new_FixedLengthCircuitElement 0 vertexA vertexA =
     Inr \<lparr>startVertex = vertexA, endVertex = vertexA, distanceBetweenVertices = 0,
          electronPathLength = 0\<rparr>"
  by (simp add: new_FixedLengthCircuitElement_def Vector2_distance_self)

section \<open>The circuit solver\<close>

text \<open>
  The solver itself (the modified nodal analysis, its adapter to the circuit elements and
  the \<open>Circuit\<close> model that calls it) is not among the sources; only callers and views of
  its results are. The definitions of this section follow the specification, sections 3
  and 4, one island at a time: an island is solved independently of the others. Where the
  specification gives a constant by example, or leaves it open, the constant is a field of
  \<open>SolverParams\<close>. Numbers are exact reals, so a residual that the specification bounds
  by a tolerance is 0 here.
\<close>

subsection \<open>Linear systems and Gaussian elimination\<close>

text \<open>
  Modelled from the spec: the linear system of section 4.3, missing with the solver. A row
  is an equation: the coefficients of the unknowns and the right-hand side.
\<close>

type_synonym row = "real list \<times> real"

text \<open>
  Modelled from the spec: the product of a row's coefficients with a vector of values
  (the linear solver is missing).
\<close>

fun dot :: "real list \<Rightarrow> real list \<Rightarrow> real" where
  "dot (a # as) (x # xs) = a * x + dot as xs"
| "dot _ _ = 0"

text \<open>
  Modelled from the spec: a vector solves an equation of the system (the linear solver is
  missing).
\<close>

definition satisfies :: "real list \<Rightarrow> row \<Rightarrow> bool" where
  "satisfies x r = (dot (fst r) x = snd r)"

text \<open>
  Modelled from the spec: the coefficient of a row's first unknown (the linear solver is
  missing).
\<close>

fun leading :: "row \<Rightarrow> real" where
  "leading (c # cs, b) = c"
| "leading ([], b) = 0"

text \<open>
  Modelled from the spec: "pivot for numerical stability" (the linear solver is missing).
  The pivot is a row whose leading coefficient is largest in absolute value; the other
  rows are returned with it.
\<close>

fun pickPivot :: "row list \<Rightarrow> (row \<times> row list) option" where
  "pickPivot [] = None"
| "pickPivot (r # rs) =
     (case pickPivot rs of
        None \<Rightarrow> Some (r, [])
      | Some (p, others) \<Rightarrow>
          if \<bar>leading p\<bar> > \<bar>leading r\<bar> then Some (p, r # others) else Some (r, p # others))"

text \<open>
  Modelled from the spec: one step of the elimination, which removes the first unknown
  from row \<open>r\<close> with the pivot row \<open>p\<close> (the linear solver is missing).
\<close>

definition eliminate :: "row \<Rightarrow> row \<Rightarrow> row" where
  "eliminate p r =
     (let m = leading r / leading p
      in (map2 (\<lambda>a c. c - m * a) (tl (fst p)) (tl (fst r)), snd r - m * snd p))"

text \<open>
  Modelled from the spec: "solve via Gaussian elimination", for \<open>n\<close> unknowns (the
  linear solver is missing). A system with no usable pivot is singular, which is
  detected: the result is \<open>None\<close>.
\<close>

fun gauss :: "nat \<Rightarrow> row list \<Rightarrow> real list option" where
  "gauss 0 rows = (if rows = [] then Some [] else None)"
| "gauss (Suc n) rows =
     (case pickPivot rows of
        None \<Rightarrow> None
      | Some (p, others) \<Rightarrow>
          if leading p = 0 then None
          else (case gauss n (map (eliminate p) others) of
                  None \<Rightarrow> None
                | Some xs \<Rightarrow> Some ((snd p - dot (tl (fst p)) xs) / leading p # xs)))"

lemma pickPivot_None: "pickPivot rs = None \<Longrightarrow> rs = []"
  by (cases rs) (auto split: option.splits if_splits)

lemma pickPivot_set:
  "pickPivot rs = Some (p, others) \<Longrightarrow>
   set rs = insert p (set others) \<and> length rs = Suc (length others)"
  by (induction rs arbitrary: p others)
     (auto split: option.splits if_splits dest: pickPivot_None)

lemma dot_map2_sub:
  "length as = length cs \<Longrightarrow>
   dot (map2 (\<lambda>a c. c - m * a) as cs) xs = dot cs xs - m * dot as xs"
proof (induction as cs arbitrary: xs rule: list_induct2)
  case Nil
  then show ?case by simp
next
  case (Cons a as c cs)
  then show ?case by (cases xs) (simp_all add: algebra_simps)
qed

lemma leading_dot:
  "length (fst r) = Suc n \<Longrightarrow> dot (fst r) (x # xs) = leading r * x + dot (tl (fst r)) xs"
  by (cases r; cases "fst r") auto

lemma gauss_length: "gauss n rows = Some x \<Longrightarrow> length x = n"
  by (induction n arbitrary: rows x) (auto split: option.splits if_splits)

text \<open>What the elimination returns solves every equation it was given.\<close>

lemma gauss_sound:
  "gauss n rows = Some x \<Longrightarrow> \<forall>r\<in>set rows. length (fst r) = n \<Longrightarrow> r \<in> set rows \<Longrightarrow>
   satisfies x r"
proof (induction n arbitrary: rows x r)
  case 0
  then show ?case by (simp split: if_splits)
next
  case (Suc n)
  from Suc.prems(1) obtain p others xs where
    piv: "pickPivot rows = Some (p, others)" and nz: "leading p \<noteq> 0"
    and rec: "gauss n (map (eliminate p) others) = Some xs"
    and x: "x = (snd p - dot (tl (fst p)) xs) / leading p # xs"
    by (auto split: option.splits if_splits)
  from pickPivot_set [OF piv] have rows: "set rows = insert p (set others)" by simp
  have wp: "length (fst p) = Suc n" using rows Suc.prems(2) by simp
  have pivot_ok: "leading p * hd x + dot (tl (fst p)) xs = snd p"
    using nz by (simp add: x)
  have widths: "\<forall>q\<in>set (map (eliminate p) others). length (fst q) = n"
    using rows Suc.prems(2) wp by (auto simp: eliminate_def Let_def)
  show ?case
  proof (cases "r = p")
    case True
    then show ?thesis
      using pivot_ok wp by (simp add: satisfies_def x leading_dot [OF wp])
  next
    case False
    then have r_in: "r \<in> set others" using rows Suc.prems(3) by auto
    have wr: "length (fst r) = Suc n" using Suc.prems(2,3) by simp
    define m where "m = leading r / leading p"
    have elim: "eliminate p r =
        (map2 (\<lambda>a c. c - m * a) (tl (fst p)) (tl (fst r)), snd r - m * snd p)"
      by (simp add: eliminate_def m_def)
    have "satisfies xs (eliminate p r)"
      using Suc.IH [OF rec widths] r_in by simp
    then have "dot (map2 (\<lambda>a c. c - m * a) (tl (fst p)) (tl (fst r))) xs = snd r - m * snd p"
      unfolding elim by (simp add: satisfies_def)
    moreover have "length (tl (fst p)) = length (tl (fst r))"
      using wp wr by simp
    ultimately have "dot (tl (fst r)) xs - m * dot (tl (fst p)) xs = snd r - m * snd p"
      by (simp only: dot_map2_sub)
    moreover have "leading r * hd x = m * (snd p - dot (tl (fst p)) xs)"
      by (simp add: x m_def)
    ultimately have "leading r * hd x + dot (tl (fst r)) xs = snd r"
      by (simp add: algebra_simps)
    then show ?thesis
      by (simp add: satisfies_def x leading_dot [OF wr])
  qed
qed

subsection \<open>Elements, stamps and the assembled system\<close>

text \<open>
  Modelled from the spec: the element variants of section 3, "a closed tagged-variant over
  element kinds, each carrying its own parameter struct". The arguments are: resistance;
  voltage; amplitude, frequency and phase; resistance of an ohmic bulb; capacitance;
  inductance; whether the switch is closed; resistance of a fuse and whether it has
  tripped. The solver's element classes are missing.
\<close>

datatype ElementKind =
    Wire
  | Resistor real
  | Battery real
  | ACSource real real real
  | LightBulb real
  | RealLightBulb
  | Capacitor real
  | Inductor real
  | Switch bool
  | Fuse real bool
  | SeriesAmmeter

text \<open>
  Modelled from the spec: a circuit element as the solver sees it. It "references exactly
  two vertices (start, end)" and "elements store vertex IDs"; a dynamic element owns its
  "previous-step voltage and current (companion-model history)". The solver's element
  classes are missing.
\<close>

record Element =
  elementId :: nat
  startId :: nat
  endId :: nat
  kind :: ElementKind
  previousVoltage :: real
  previousCurrent :: real

text \<open>
  Modelled from the spec: the constants of the solver, which is missing. The
  specification names \<open>MIN_RESISTANCE\<close> and \<open>MAX_RESISTANCE\<close>, gives the tolerance and
  the iteration cap by example, and leaves the resistance of a real bulb as "a pluggable
  calibration curve" of the present current estimate.
\<close>

record SolverParams =
  MIN_RESISTANCE :: real
  MAX_RESISTANCE :: real
  bulbResistance :: "real \<Rightarrow> real"
  tolerance :: real
  maxIterations :: nat

text \<open>
  Modelled from the spec: what an element contributes to the system (its stamp, missing
  with the solver): a conductance with a current source beside it (Norton), an ideal
  voltage source with a current unknown of its own, or nothing.
\<close>

datatype Stamp = Conductance real real | VoltageSource real | Open

text \<open>
  Modelled from the spec: resistances "are clamped to solver-safe bounds
  (\<open>MIN_RESISTANCE\<close>, \<open>MAX_RESISTANCE\<close>) before stamping". The solver's code is missing.
\<close>

definition clampResistance :: "SolverParams \<Rightarrow> real \<Rightarrow> real" where
  "clampResistance P r = max (MIN_RESISTANCE P) (min (MAX_RESISTANCE P) r)"

text \<open>
  Modelled from the spec: the stamp providers of section 4.2, missing with the solver.
  A resistor stamps \<open>G = 1/R\<close>; a wire has the floor resistance; a battery or AC source is
  an ideal voltage source, the AC voltage being \<open>Vmax * sin(2 \<pi> f t + phase)\<close> at the
  stamping time; a real bulb's resistance is a function of the present current estimate; a
  capacitor is \<open>G = C/dt\<close> with the source \<open>G * V_prev\<close>; an inductor is \<open>G = dt/L\<close> with
  the source \<open>G * I_prev\<close>, as the specification writes it; a closed switch is a wire and
  an open switch stamps nothing; a fuse is a resistor until it has tripped, then open. The
  specification gives no stamp for the series ammeter; it is taken as a wire.
\<close>

definition stampOf :: "SolverParams \<Rightarrow> real \<Rightarrow> real \<Rightarrow> (nat \<Rightarrow> real) \<Rightarrow> Element \<Rightarrow> Stamp" where
  "stampOf P dt t guess e =
     (case kind e of
        Wire \<Rightarrow> Conductance (1 / MIN_RESISTANCE P) 0
      | Resistor r \<Rightarrow> Conductance (1 / clampResistance P r) 0
      | Battery u \<Rightarrow> VoltageSource u
      | ACSource vmax f ph \<Rightarrow> VoltageSource (vmax * sin (2 * pi * f * t + ph))
      | LightBulb r \<Rightarrow> Conductance (1 / clampResistance P r) 0
      | RealLightBulb \<Rightarrow>
          Conductance (1 / clampResistance P (bulbResistance P (guess (elementId e)))) 0
      | Capacitor c \<Rightarrow> Conductance (c / dt) (c / dt * previousVoltage e)
      | Inductor l \<Rightarrow> Conductance (dt / l) (dt / l * previousCurrent e)
      | Switch isClosed \<Rightarrow> if isClosed then Conductance (1 / MIN_RESISTANCE P) 0 else Open
      | Fuse r tripped \<Rightarrow> if tripped then Open else Conductance (1 / clampResistance P r) 0
      | SeriesAmmeter \<Rightarrow> Conductance (1 / MIN_RESISTANCE P) 0)"

text \<open>
  Modelled from the spec: the unknowns of the modified nodal analysis, missing with the
  solver: the voltage of a vertex, and for each voltage source "a current variable".
\<close>

datatype Unknown = NodeVoltage nat | SourceCurrent nat

text \<open>
  Modelled from the spec: the "nodal admittance matrix and current-injection vector" of
  the linear system builder, which is missing; rows and columns are named by unknowns.
\<close>

record LinearSystem =
  matrix :: "Unknown \<Rightarrow> Unknown \<Rightarrow> real"
  rhs :: "Unknown \<Rightarrow> real"

text \<open>Modelled from the spec: the system before any stamp, all zero (builder missing).\<close>

definition emptySystem :: LinearSystem where
  "emptySystem = \<lparr>matrix = (\<lambda>r c. 0), rhs = (\<lambda>r. 0)\<rparr>"

text \<open>
  Modelled from the spec: a stamp "adds its contribution" to one entry of the matrix
  (builder missing).
\<close>

definition addEntry :: "Unknown \<Rightarrow> Unknown \<Rightarrow> real \<Rightarrow> LinearSystem \<Rightarrow> LinearSystem" where
  "addEntry r c a sys =
     sys\<lparr>matrix := (\<lambda>i j. if i = r \<and> j = c then matrix sys i j + a else matrix sys i j)\<rparr>"

text \<open>
  Modelled from the spec: a stamp adds to one entry of the right-hand side (builder
  missing).
\<close>

definition addRhs :: "Unknown \<Rightarrow> real \<Rightarrow> LinearSystem \<Rightarrow> LinearSystem" where
  "addRhs r a sys = sys\<lparr>rhs := (\<lambda>i. if i = r then rhs sys i + a else rhs sys i)\<rparr>"

text \<open>
  Modelled from the spec: \<open>stamp\<close> of section 4.2, missing with the solver. The row of a
  vertex is the balance of the currents that leave it; the branch current of an element
  runs from its start to its end. A conductance \<open>g\<close> with source \<open>j\<close> carries
  \<open>g (v\<^sub>s\<^sub>t\<^sub>a\<^sub>r\<^sub>t - v\<^sub>e\<^sub>n\<^sub>d) - j\<close>; a voltage source carries its own unknown and adds the row
  \<open>v\<^sub>e\<^sub>n\<^sub>d - v\<^sub>s\<^sub>t\<^sub>a\<^sub>r\<^sub>t = u\<close>; an open element adds nothing.
\<close>

definition stamp :: "Stamp \<Rightarrow> Element \<Rightarrow> LinearSystem \<Rightarrow> LinearSystem" where
  "stamp st e sys =
     (let s = NodeVoltage (startId e); t = NodeVoltage (endId e); k = SourceCurrent (elementId e)
      in case st of
           Conductance g j \<Rightarrow>
             addRhs t (- j) (addRhs s j
               (addEntry t t g (addEntry t s (- g) (addEntry s t (- g) (addEntry s s g sys)))))
         | VoltageSource u \<Rightarrow>
             addRhs k u
               (addEntry k s (- 1) (addEntry k t 1 (addEntry t k (- 1) (addEntry s k 1 sys))))
         | Open \<Rightarrow> sys)"

text \<open>
  Modelled from the spec: the builder "assembles a nodal admittance matrix and
  current-injection vector from all element stamps" (builder missing).
\<close>

definition assemble :: "(Element \<Rightarrow> Stamp) \<Rightarrow> Element list \<Rightarrow> LinearSystem" where
  "assemble stampFor es = fold (\<lambda>e. stamp (stampFor e) e) es emptySystem"

text \<open>Modelled from the spec: the stamps that bring a current unknown (builder missing).\<close>

fun isVoltageSource :: "Stamp \<Rightarrow> bool" where
  "isVoltageSource (VoltageSource u) = True"
| "isVoltageSource _ = False"

text \<open>
  Modelled from the spec: an island, "a maximal connected subgraph of the circuit graph,
  solved independently", as its vertices and its elements. The \<open>Circuit\<close> model is
  missing. The first vertex is the island's reference (ground) vertex.
\<close>

record Island =
  vertices :: "nat list"
  elements :: "Element list"

text \<open>
  Modelled from the spec: "reference-node grounding" and the "stable indexing of
  non-reference nodes per island" (builder missing): the unknowns are the voltages of the
  vertices after the reference, then the currents of the voltage sources.
\<close>

definition unknowns :: "(Element \<Rightarrow> Stamp) \<Rightarrow> Island \<Rightarrow> Unknown list" where
  "unknowns stampFor island =
     map NodeVoltage (tl (vertices island)) @
     map (\<lambda>e. SourceCurrent (elementId e))
       (filter (\<lambda>e. isVoltageSource (stampFor e)) (elements island))"

text \<open>
  Modelled from the spec: the dense system that is handed to the elimination (builder
  missing).
\<close>

definition denseRows :: "LinearSystem \<Rightarrow> Unknown list \<Rightarrow> row list" where
  "denseRows sys us = map (\<lambda>r. (map (matrix sys r) us, rhs sys r)) us"

text \<open>
  Modelled from the spec: the value of an unknown in the solved vector; the reference
  voltage, which is no unknown, is 0 (builder missing).
\<close>

definition assignment :: "Unknown list \<Rightarrow> real list \<Rightarrow> Unknown \<Rightarrow> real" where
  "assignment us x u = (case map_of (zip us x) u of Some a \<Rightarrow> a | None \<Rightarrow> 0)"

text \<open>
  Modelled from the spec: the element currents, obtained from the voltages "by
  substitution" into the element's stamp (builder missing).
\<close>

definition branchCurrent :: "(Unknown \<Rightarrow> real) \<Rightarrow> Stamp \<Rightarrow> Element \<Rightarrow> real" where
  "branchCurrent \<rho> st e =
     (case st of
        Conductance g j \<Rightarrow> g * (\<rho> (NodeVoltage (startId e)) - \<rho> (NodeVoltage (endId e))) - j
      | VoltageSource u \<Rightarrow> \<rho> (SourceCurrent (elementId e))
      | Open \<Rightarrow> 0)"

text \<open>
  Modelled from the spec: the result \<open>{vertexVoltages, elementCurrents}\<close> of section 6, "a
  mapping vertex -> voltage and, by substitution, element -> current" (solver missing).
  Elements are named by their identifier.
\<close>

record Solution =
  vertexVoltages :: "nat \<Rightarrow> real"
  elementCurrents :: "nat \<Rightarrow> real"

text \<open>
  Modelled from the spec: the linear system builder's contract of section 4.3, for the
  stamps given by \<open>stampFor\<close> (builder missing). A singular system gives \<open>None\<close>.
\<close>

definition solveLinear :: "(Element \<Rightarrow> Stamp) \<Rightarrow> Island \<Rightarrow> Solution option" where
  "solveLinear stampFor island =
     (let us = unknowns stampFor island;
          sys = assemble stampFor (elements island)
      in case gauss (length us) (denseRows sys us) of
           None \<Rightarrow> None
         | Some x \<Rightarrow>
             Some \<lparr>vertexVoltages = (\<lambda>v. assignment us x (NodeVoltage v)),
                   elementCurrents =
                     (\<lambda>k. case find (\<lambda>e. elementId e = k) (elements island) of
                             None \<Rightarrow> 0
                           | Some e \<Rightarrow> branchCurrent (assignment us x) (stampFor e) e)\<rparr>)"

subsection \<open>The iteration driver\<close>

text \<open>
  Modelled from the spec: the non-ohmic elements, whose "resistance is a function of the
  current" (solver missing): the real light bulbs.
\<close>

definition nonOhmic :: "Element \<Rightarrow> bool" where
  "nonOhmic e = (kind e = RealLightBulb)"

text \<open>
  Modelled from the spec: the transition rule of section 4.4 (driver missing): converged
  "if every non-ohmic element's current changed by less than tolerance from the prior
  iteration".
\<close>

definition converged :: "SolverParams \<Rightarrow> Island \<Rightarrow> (nat \<Rightarrow> real) \<Rightarrow> Solution \<Rightarrow> bool" where
  "converged P island guess sol =
     list_all (\<lambda>e. \<bar>elementCurrents sol (elementId e) - guess (elementId e)\<bar> < tolerance P)
       (filter nonOhmic (elements island))"

text \<open>
  Modelled from the spec: the final states of the driver's state machine, \<open>Converged\<close> and
  \<open>Diverged(MaxIterationsExceeded)\<close>, each with the last solution, and the island whose
  system is singular, which is "left unsolved" (driver missing).
\<close>

datatype Outcome = Converged Solution | Diverged Solution | Singular

text \<open>
  Modelled from the spec: the driver of section 4.4, which is missing: stamp and solve
  with the present estimate of the currents; stop when converged; "if iteration count
  exceeds a cap, stop and report the last solution"; otherwise "re-stamp and re-solve"
  with the new currents. \<open>n\<close> counts the solves done before this one; the result carries
  the number of solves done.
\<close>

function iterate ::
  "SolverParams \<Rightarrow> real \<Rightarrow> real \<Rightarrow> Island \<Rightarrow> nat \<Rightarrow> (nat \<Rightarrow> real) \<Rightarrow> Outcome \<times> nat" where
  "iterate P dt t island n guess =
     (case solveLinear (stampOf P dt t guess) island of
        None \<Rightarrow> (Singular, Suc n)
      | Some sol \<Rightarrow>
          if converged P island guess sol then (Converged sol, Suc n)
          else if maxIterations P \<le> Suc n then (Diverged sol, Suc n)
          else iterate P dt t island (Suc n) (elementCurrents sol))"
  by pat_completeness auto
termination
  by (relation "measure (\<lambda>(P, dt, t, island, n, guess). maxIterations P - n)") auto

declare iterate.simps [simp del]

text \<open>
  Modelled from the spec: the "initial guess: previous step's currents for non-ohmic
  elements", which are 0 on the first step (driver missing).
\<close>

definition initialGuess :: "Island \<Rightarrow> nat \<Rightarrow> real" where
  "initialGuess island k =
     (case find (\<lambda>e. elementId e = k) (elements island) of
        None \<Rightarrow> 0
      | Some e \<Rightarrow> previousCurrent e)"

text \<open>
  Modelled from the spec: the solve of one island for a time step \<open>dt\<close> at time \<open>t\<close>,
  "a pure function of current topology/parameters plus each dynamic element's stored
  history" (solver missing).
\<close>

definition solveIsland :: "SolverParams \<Rightarrow> real \<Rightarrow> real \<Rightarrow> Island \<Rightarrow> Outcome \<times> nat" where
  "solveIsland P dt t island = iterate P dt t island 0 (initialGuess island)"

text \<open>
  Modelled from the spec: the estimate that the next iteration starts from, after one
  solve with the estimate \<open>guess\<close> (driver missing).
\<close>

definition nextGuess ::
  "SolverParams \<Rightarrow> real \<Rightarrow> real \<Rightarrow> Island \<Rightarrow> (nat \<Rightarrow> real) \<Rightarrow> nat \<Rightarrow> real" where
  "nextGuess P dt t island guess =
     (case solveLinear (stampOf P dt t guess) island of
        None \<Rightarrow> guess
      | Some sol \<Rightarrow> elementCurrents sol)"

text \<open>
  Modelled from the spec: an iteration that is solved and does not meet the convergence
  rule (driver missing).
\<close>

definition notConvergedAt ::
  "SolverParams \<Rightarrow> real \<Rightarrow> real \<Rightarrow> Island \<Rightarrow> (nat \<Rightarrow> real) \<Rightarrow> bool" where
  "notConvergedAt P dt t island guess =
     (case solveLinear (stampOf P dt t guess) island of
        None \<Rightarrow> False
      | Some sol \<Rightarrow> \<not> converged P island guess sol)"

subsection \<open>Kirchhoff's current law\<close>

text \<open>
  Modelled from the spec: the current that leaves vertex \<open>v\<close> through element \<open>e\<close>, when
  \<open>i\<close> runs through \<open>e\<close> from its start to its end; 0 when \<open>e\<close> does not touch \<open>v\<close>
  (the solver's tests of this property are missing).
\<close>

definition outflow :: "real \<Rightarrow> Element \<Rightarrow> nat \<Rightarrow> real" where
  "outflow i e v = (if startId e = v then i else 0) - (if endId e = v then i else 0)"

text \<open>
  Modelled from the spec: "the sum of currents computed from elements touching that
  vertex", for the element currents \<open>cur\<close> (the solver's tests of this property are
  missing).
\<close>

definition netCurrent :: "(nat \<Rightarrow> real) \<Rightarrow> Element list \<Rightarrow> nat \<Rightarrow> real" where
  "netCurrent cur es v = (\<Sum>e\<leftarrow>es. outflow (cur (elementId e)) e v)"

text \<open>
  Modelled from the spec: the invariants of the data model that the solver relies on
  (the \<open>Circuit\<close> model is missing): vertices and elements have an identity, and an
  element's two vertices "both exist in the active vertex set".
\<close>

definition wellFormed :: "Island \<Rightarrow> bool" where
  "wellFormed island =
     (distinct (vertices island) \<and> distinct (map elementId (elements island)) \<and>
      list_all (\<lambda>e. startId e \<in> set (vertices island) \<and> endId e \<in> set (vertices island))
        (elements island))"

text \<open>
  Modelled from the spec: the island without one of its elements (the \<open>Circuit\<close> model
  is missing).
\<close>

definition removeElement :: "Element \<Rightarrow> Island \<Rightarrow> Island" where
  "removeElement e island = island\<lparr>elements := filter (\<lambda>e'. e' \<noteq> e) (elements island)\<rparr>"

lemma matrix_addEntry:
  "matrix (addEntry r c a sys) i j = matrix sys i j + (if i = r \<and> j = c then a else 0)"
  by (simp add: addEntry_def)

lemma rhs_addEntry: "rhs (addEntry r c a sys) = rhs sys"
  by (simp add: addEntry_def)

lemma matrix_addRhs: "matrix (addRhs r a sys) = matrix sys"
  by (simp add: addRhs_def)

lemma rhs_addRhs: "rhs (addRhs r a sys) i = rhs sys i + (if i = r then a else 0)"
  by (simp add: addRhs_def)

lemma stamp_matrix_add:
  "matrix (stamp st e sys) i j = matrix sys i j + matrix (stamp st e emptySystem) i j"
  by (cases st) (simp_all add: stamp_def Let_def matrix_addEntry matrix_addRhs emptySystem_def)

lemma stamp_rhs_add:
  "rhs (stamp st e sys) i = rhs sys i + rhs (stamp st e emptySystem) i"
  by (cases st) (simp_all add: stamp_def Let_def rhs_addEntry rhs_addRhs emptySystem_def)

lemma fold_stamp_matrix:
  "matrix (fold (\<lambda>e. stamp (f e) e) es sys) i j =
     matrix sys i j + (\<Sum>e\<leftarrow>es. matrix (stamp (f e) e emptySystem) i j)"
proof (induction es arbitrary: sys)
  case Nil
  then show ?case by simp
next
  case (Cons e es)
  show ?case
    by (simp add: Cons.IH stamp_matrix_add [of "f e" e sys])
qed

lemma fold_stamp_rhs:
  "rhs (fold (\<lambda>e. stamp (f e) e) es sys) i =
     rhs sys i + (\<Sum>e\<leftarrow>es. rhs (stamp (f e) e emptySystem) i)"
proof (induction es arbitrary: sys)
  case Nil
  then show ?case by simp
next
  case (Cons e es)
  show ?case
    by (simp add: Cons.IH stamp_rhs_add [of "f e" e sys])
qed

lemma assemble_matrix:
  "matrix (assemble f es) i j = (\<Sum>e\<leftarrow>es. matrix (stamp (f e) e emptySystem) i j)"
  by (simp add: assemble_def fold_stamp_matrix) (simp add: emptySystem_def)

lemma assemble_rhs:
  "rhs (assemble f es) i = (\<Sum>e\<leftarrow>es. rhs (stamp (f e) e emptySystem) i)"
  by (simp add: assemble_def fold_stamp_rhs) (simp add: emptySystem_def)

lemma assignment_Cons:
  "assignment (u # us) (a # x) w = (if w = u then a else assignment us x w)"
  by (simp add: assignment_def)

lemma assignment_outside: "w \<notin> set us \<Longrightarrow> assignment us x w = 0"
proof -
  assume "w \<notin> set us"
  then have "w \<notin> fst ` set (zip us x)"
    by (auto dest: set_zip_leftD)
  then have "map_of (zip us x) w = None"
    by (simp add: map_of_eq_None_iff)
  then show ?thesis by (simp add: assignment_def)
qed

lemma dot_assignment:
  "distinct us \<Longrightarrow> length x = length us \<Longrightarrow>
   dot (map f us) x = (\<Sum>u\<leftarrow>us. f u * assignment us x u)"
proof (induction us arbitrary: x)
  case Nil
  then show ?case by simp
next
  case (Cons u us)
  then obtain a xs where x: "x = a # xs" by (cases x) auto
  have "(\<Sum>w\<leftarrow>us. f w * assignment (u # us) (a # xs) w) = (\<Sum>w\<leftarrow>us. f w * assignment us xs w)"
  proof (rule arg_cong [where f = sum_list], rule map_cong [OF refl])
    fix w assume "w \<in> set us"
    with Cons.prems(1) have "w \<noteq> u" by auto
    then show "f w * assignment (u # us) (a # xs) w = f w * assignment us xs w"
      by (simp add: assignment_Cons)
  qed
  moreover have "dot (map f us) xs = (\<Sum>w\<leftarrow>us. f w * assignment us xs w)"
    using Cons.IH [of xs] Cons.prems x by simp
  ultimately show ?case
    by (simp add: x assignment_Cons)
qed

lemma sum_list_indicator:
  "distinct us \<Longrightarrow> (\<Sum>u\<leftarrow>us. (if u = w then a else 0) * \<rho> u) = (if w \<in> set us then a * \<rho> w else (0::real))"
  by (induction us) auto

lemma sum_list_swap:
  "(\<Sum>x\<leftarrow>xs. \<Sum>y\<leftarrow>ys. (f x y :: real)) = (\<Sum>y\<leftarrow>ys. \<Sum>x\<leftarrow>xs. f x y)"
  by (induction xs) (simp_all add: sum_list_addf)

lemma sum_list_guarded_indicator:
  assumes "distinct us" and "\<And>w. w \<notin> set us \<Longrightarrow> \<rho> w = 0"
  shows "(\<Sum>u\<leftarrow>us. (if P \<and> u = w then a else 0) * \<rho> u) = (if P then a * \<rho> w else (0::real))"
proof (cases P)
  case True
  then show ?thesis
    using sum_list_indicator [OF assms(1), of w a \<rho>] assms(2) [of w] by auto
next
  case False
  then show ?thesis by simp
qed

lemma element_row:
  assumes "distinct us" and "\<And>w. w \<notin> set us \<Longrightarrow> \<rho> w = 0"
  shows "(\<Sum>u\<leftarrow>us. matrix (stamp st e emptySystem) (NodeVoltage v) u * \<rho> u)
           - rhs (stamp st e emptySystem) (NodeVoltage v)
         = outflow (branchCurrent \<rho> st e) e v"
proof (cases st)
  case (Conductance g j)
  note ind = sum_list_guarded_indicator [OF assms]
  show ?thesis
    unfolding Conductance
    by (simp add: stamp_def Let_def matrix_addEntry matrix_addRhs rhs_addEntry rhs_addRhs
        emptySystem_def distrib_right sum_list_addf ind outflow_def branchCurrent_def)
       (simp add: algebra_simps)
next
  case (VoltageSource u)
  note ind = sum_list_guarded_indicator [OF assms]
  show ?thesis
    unfolding VoltageSource
    by (simp add: stamp_def Let_def matrix_addEntry matrix_addRhs rhs_addEntry rhs_addRhs
        emptySystem_def distrib_right sum_list_addf ind outflow_def branchCurrent_def)
next
  case Open
  then show ?thesis
    by (simp add: stamp_def emptySystem_def outflow_def branchCurrent_def)
qed

lemma find_by_id:
  "distinct (map elementId es) \<Longrightarrow> e \<in> set es \<Longrightarrow>
   find (\<lambda>e'. elementId e' = elementId e) es = Some e"
  by (induction es) (auto simp: image_iff)

lemma distinct_unknowns:
  assumes "wellFormed island"
  shows "distinct (unknowns f island)"
proof -
  have "distinct (tl (vertices island))"
    using assms by (simp add: wellFormed_def distinct_tl)
  then have a: "distinct (map NodeVoltage (tl (vertices island)))"
    by (simp add: distinct_map inj_on_def)
  have "distinct (map elementId (filter (\<lambda>e. isVoltageSource (f e)) (elements island)))"
    using assms by (simp add: wellFormed_def distinct_map_filter)
  then have b: "distinct (map (\<lambda>e. SourceCurrent (elementId e))
                   (filter (\<lambda>e. isVoltageSource (f e)) (elements island)))"
    by (simp add: distinct_map inj_on_def)
  show ?thesis
    unfolding unknowns_def using a b by auto
qed

lemma solveLinear_currents:
  assumes "wellFormed island" and "solveLinear f island = Some sol"
  obtains x where "gauss (length (unknowns f island))
                     (denseRows (assemble f (elements island)) (unknowns f island)) = Some x"
    and "vertexVoltages sol = (\<lambda>v. assignment (unknowns f island) x (NodeVoltage v))"
    and "\<And>e. e \<in> set (elements island) \<Longrightarrow>
           elementCurrents sol (elementId e) = branchCurrent (assignment (unknowns f island) x) (f e) e"
proof -
  from assms(2) obtain x where
    g: "gauss (length (unknowns f island))
          (denseRows (assemble f (elements island)) (unknowns f island)) = Some x"
    and sol: "sol = \<lparr>vertexVoltages = (\<lambda>v. assignment (unknowns f island) x (NodeVoltage v)),
                   elementCurrents =
                     (\<lambda>k. case find (\<lambda>e. elementId e = k) (elements island) of
                             None \<Rightarrow> 0
                           | Some e \<Rightarrow> branchCurrent (assignment (unknowns f island) x) (f e) e)\<rparr>"
    by (auto simp: solveLinear_def Let_def split: option.splits)
  have ids: "distinct (map elementId (elements island))"
    using assms(1) by (simp add: wellFormed_def)
  show thesis
  proof (rule that [OF g])
    show "vertexVoltages sol = (\<lambda>v. assignment (unknowns f island) x (NodeVoltage v))"
      by (simp add: sol)
  next
    fix e assume "e \<in> set (elements island)"
    then show "elementCurrents sol (elementId e) =
                 branchCurrent (assignment (unknowns f island) x) (f e) e"
      by (simp add: sol find_by_id [OF ids])
  qed
qed

lemma kcl_non_reference:
  assumes wf: "wellFormed island" and solved: "solveLinear f island = Some sol"
    and v: "v \<in> set (tl (vertices island))"
  shows "netCurrent (elementCurrents sol) (elements island) v = 0"
proof -
  define us where "us = unknowns f island"
  define es where "es = elements island"
  define sys where "sys = assemble f es"
  obtain x where g: "gauss (length us) (denseRows sys us) = Some x"
    and cur: "\<And>e. e \<in> set es \<Longrightarrow>
                elementCurrents sol (elementId e) = branchCurrent (assignment us x) (f e) e"
    using solveLinear_currents [OF wf solved] unfolding us_def es_def sys_def by blast
  define \<rho> where "\<rho> = assignment us x"
  have dus: "distinct us"
    unfolding us_def by (rule distinct_unknowns [OF wf])
  have lx: "length x = length us"
    using g by (rule gauss_length)
  have out: "\<And>w. w \<notin> set us \<Longrightarrow> \<rho> w = 0"
    unfolding \<rho>_def by (rule assignment_outside)
  have r_in: "NodeVoltage v \<in> set us"
    using v by (simp add: us_def unknowns_def)
  let ?r = "NodeVoltage v"
  have "(map (matrix sys ?r) us, rhs sys ?r) \<in> set (denseRows sys us)"
    using r_in by (auto simp: denseRows_def)
  moreover have "\<forall>q\<in>set (denseRows sys us). length (fst q) = length us"
    by (auto simp: denseRows_def)
  ultimately have "satisfies x (map (matrix sys ?r) us, rhs sys ?r)"
    using gauss_sound [OF g] by blast
  then have "dot (map (matrix sys ?r) us) x = rhs sys ?r"
    by (simp add: satisfies_def)
  then have row: "(\<Sum>u\<leftarrow>us. matrix sys ?r u * \<rho> u) = rhs sys ?r"
    by (simp add: dot_assignment [OF dus lx] \<rho>_def)
  have "(\<Sum>u\<leftarrow>us. matrix sys ?r u * \<rho> u)
          = (\<Sum>u\<leftarrow>us. \<Sum>e\<leftarrow>es. matrix (stamp (f e) e emptySystem) ?r u * \<rho> u)"
    by (simp add: sys_def assemble_matrix sum_list_mult_const)
  also have "\<dots> = (\<Sum>e\<leftarrow>es. \<Sum>u\<leftarrow>us. matrix (stamp (f e) e emptySystem) ?r u * \<rho> u)"
    by (rule sum_list_swap)
  finally have "(\<Sum>e\<leftarrow>es. (\<Sum>u\<leftarrow>us. matrix (stamp (f e) e emptySystem) ?r u * \<rho> u)
                     - rhs (stamp (f e) e emptySystem) ?r) = 0"
    using row by (simp add: sum_list_subtractf sys_def assemble_rhs)
  then have "(\<Sum>e\<leftarrow>es. outflow (branchCurrent \<rho> (f e) e) e v) = 0"
    by (simp add: element_row [OF dus out])
  moreover have "netCurrent (elementCurrents sol) es v
                   = (\<Sum>e\<leftarrow>es. outflow (branchCurrent \<rho> (f e) e) e v)"
    unfolding netCurrent_def
    by (rule arg_cong [where f = sum_list], rule map_cong [OF refl]) (simp add: cur \<rho>_def)
  ultimately show ?thesis
    by (simp add: es_def)
qed

lemma sum_list_vertex_indicator:
  "distinct vs \<Longrightarrow> (\<Sum>v\<leftarrow>vs. if a = v then i else 0) = (if a \<in> set vs then i else (0::real))"
  by (induction vs) auto

lemma total_outflow:
  "distinct vs \<Longrightarrow> startId e \<in> set vs \<Longrightarrow> endId e \<in> set vs \<Longrightarrow> (\<Sum>v\<leftarrow>vs. outflow i e v) = 0"
  by (simp add: outflow_def sum_list_subtractf sum_list_vertex_indicator)

lemma total_netCurrent:
  assumes "wellFormed island"
  shows "(\<Sum>v\<leftarrow>vertices island. netCurrent cur (elements island) v) = 0"
proof -
  have "(\<Sum>v\<leftarrow>vertices island. netCurrent cur (elements island) v)
          = (\<Sum>e\<leftarrow>elements island. \<Sum>v\<leftarrow>vertices island. outflow (cur (elementId e)) e v)"
    unfolding netCurrent_def by (rule sum_list_swap)
  also have "\<dots> = (\<Sum>e\<leftarrow>elements island. 0)"
  proof (rule arg_cong [where f = sum_list], rule map_cong [OF refl])
    fix e assume "e \<in> set (elements island)"
    with assms show "(\<Sum>v\<leftarrow>vertices island. outflow (cur (elementId e)) e v) = 0"
      by (intro total_outflow) (auto simp: wellFormed_def list_all_iff)
  qed
  finally show ?thesis by simp
qed

lemma kcl_every_vertex:
  assumes wf: "wellFormed island" and solved: "solveLinear f island = Some sol"
    and v: "v \<in> set (vertices island)"
  shows "netCurrent (elementCurrents sol) (elements island) v = 0"
proof -
  from v obtain ref rest where vs: "vertices island = ref # rest"
    by (cases "vertices island") auto
  have rest0: "\<And>w. w \<in> set rest \<Longrightarrow> netCurrent (elementCurrents sol) (elements island) w = 0"
    using kcl_non_reference [OF wf solved] by (simp add: vs)
  then have "(\<Sum>w\<leftarrow>rest. netCurrent (elementCurrents sol) (elements island) w) = 0"
    by (induction rest) auto
  with total_netCurrent [OF wf, of "elementCurrents sol"]
  have "netCurrent (elementCurrents sol) (elements island) ref = 0"
    by (simp add: vs)
  with rest0 v show ?thesis
    by (auto simp: vs)
qed

lemma iterate_count:
  "snd (iterate P dt t island n guess) \<le> max (Suc n) (maxIterations P)"
proof (induction P dt t island n guess rule: iterate.induct)
  case (1 P dt t island n guess)
  show ?case
  proof (cases "solveLinear (stampOf P dt t guess) island")
    case None
    then show ?thesis by (simp add: iterate.simps)
  next
    case (Some sol)
    show ?thesis
    proof (cases "converged P island guess sol \<or> maxIterations P \<le> Suc n")
      case True
      then show ?thesis using Some by (auto simp: iterate.simps)
    next
      case False
      then have "iterate P dt t island n guess =
                   iterate P dt t island (Suc n) (elementCurrents sol)"
        using Some by (simp add: iterate.simps)
      moreover have "snd (iterate P dt t island (Suc n) (elementCurrents sol))
                       \<le> max (Suc (Suc n)) (maxIterations P)"
        using "1.IH" [OF Some] False by simp
      ultimately show ?thesis using False by simp
    qed
  qed
qed

lemma iterate_solution:
  "iterate P dt t island n guess = (out, k) \<Longrightarrow> out = Converged sol \<or> out = Diverged sol \<Longrightarrow>
   \<exists>g. solveLinear (stampOf P dt t g) island = Some sol"
proof (induction P dt t island n guess rule: iterate.induct)
  case (1 P dt t island n guess)
  show ?case
  proof (cases "solveLinear (stampOf P dt t guess) island")
    case None
    then show ?thesis using "1.prems" by (auto simp: iterate.simps)
  next
    case (Some s)
    show ?thesis
    proof (cases "converged P island guess s \<or> maxIterations P \<le> Suc n")
      case True
      then have "out = Converged s \<or> out = Diverged s"
        using Some "1.prems"(1) by (auto simp: iterate.simps split: if_splits)
      with "1.prems"(2) have "s = sol" by auto
      with Some show ?thesis by blast
    next
      case False
      then have "iterate P dt t island (Suc n) (elementCurrents s) = (out, k)"
        using Some "1.prems"(1) by (simp add: iterate.simps)
      then show ?thesis
        using "1.IH" [OF Some] False "1.prems"(2) by simp
    qed
  qed
qed

lemma iterate_diverges:
  "Suc n \<le> maxIterations P \<Longrightarrow>
   (\<And>j. n + j < maxIterations P \<Longrightarrow>
      notConvergedAt P dt t island ((nextGuess P dt t island ^^ j) guess)) \<Longrightarrow>
   \<exists>sol. solveLinear (stampOf P dt t
            ((nextGuess P dt t island ^^ (maxIterations P - Suc n)) guess)) island = Some sol
       \<and> iterate P dt t island n guess = (Diverged sol, maxIterations P)"
proof (induction P dt t island n guess rule: iterate.induct)
  case (1 P dt t island n guess)
  from "1.prems"(2) [of 0] "1.prems"(1)
  obtain s where s: "solveLinear (stampOf P dt t guess) island = Some s"
    and nc: "\<not> converged P island guess s"
    by (auto simp: notConvergedAt_def split: option.splits)
  show ?case
  proof (cases "maxIterations P \<le> Suc n")
    case True
    with "1.prems"(1) have "maxIterations P = Suc n" by simp
    then show ?thesis
      using s nc by (simp add: iterate.simps)
  next
    case False
    have step: "iterate P dt t island n guess = iterate P dt t island (Suc n) (elementCurrents s)"
      using s nc False by (simp add: iterate.simps)
    have ng: "nextGuess P dt t island guess = elementCurrents s"
      by (simp add: nextGuess_def s)
    have "\<And>j. Suc n + j < maxIterations P \<Longrightarrow>
            notConvergedAt P dt t island ((nextGuess P dt t island ^^ j) (elementCurrents s))"
    proof -
      fix j assume "Suc n + j < maxIterations P"
      then have "notConvergedAt P dt t island ((nextGuess P dt t island ^^ Suc j) guess)"
        using "1.prems"(2) [of "Suc j"] by simp
      then show "notConvergedAt P dt t island ((nextGuess P dt t island ^^ j) (elementCurrents s))"
        by (simp add: funpow_swap1 ng)
    qed
    moreover have "Suc (Suc n) \<le> maxIterations P" using False by simp
    ultimately obtain sol where
      "solveLinear (stampOf P dt t
         ((nextGuess P dt t island ^^ (maxIterations P - Suc (Suc n))) (elementCurrents s))) island
         = Some sol"
      and "iterate P dt t island (Suc n) (elementCurrents s) = (Diverged sol, maxIterations P)"
      using "1.IH" [OF s nc False] by blast
    moreover have "(nextGuess P dt t island ^^ (maxIterations P - Suc n)) guess
                     = (nextGuess P dt t island ^^ (maxIterations P - Suc (Suc n))) (elementCurrents s)"
    proof -
      have "maxIterations P - Suc n = Suc (maxIterations P - Suc (Suc n))"
        using False by simp
      then show ?thesis by (simp add: funpow_swap1 ng)
    qed
    ultimately show ?thesis
      using step by simp
  qed
qed

lemma stampOf_open_switch: "kind e = Switch False \<Longrightarrow> stampOf P dt t guess e = Open"
  by (simp add: stampOf_def)

lemma stamp_Open: "stamp Open e sys = sys"
  by (simp add: stamp_def)

lemma open_current_linear:
  assumes "wellFormed island" and "solveLinear f island = Some sol"
    and "e \<in> set (elements island)" and "f e = Open"
  shows "elementCurrents sol (elementId e) = 0"
proof -
  obtain x where "elementCurrents sol (elementId e) =
      branchCurrent (assignment (unknowns f island) x) (f e) e"
    using solveLinear_currents [OF assms(1,2)] assms(3) by metis
  then show ?thesis by (simp add: assms(4) branchCurrent_def)
qed

lemma fold_stamp_remove:
  "f e = Open \<Longrightarrow>
   fold (\<lambda>e'. stamp (f e') e') (filter (\<lambda>e'. e' \<noteq> e) es) sys = fold (\<lambda>e'. stamp (f e') e') es sys"
  by (induction es arbitrary: sys) (simp_all add: stamp_Open)

lemma filter_remove:
  "\<not> Q e \<Longrightarrow> filter Q (filter (\<lambda>x. x \<noteq> e) xs) = filter Q xs"
  by (induction xs) auto

lemma find_filter_other:
  "(\<And>x. P x \<Longrightarrow> Q x) \<Longrightarrow> find P (filter Q xs) = find P xs"
  by (induction xs) auto

lemma find_removed:
  "distinct (map elementId es) \<Longrightarrow> e \<in> set es \<Longrightarrow>
   find (\<lambda>e'. elementId e' = elementId e) (filter (\<lambda>e'. e' \<noteq> e) es) = None"
  by (induction es) (auto simp: image_iff find_None_iff)

lemma solveLinear_remove_open:
  assumes wf: "wellFormed island" and e: "e \<in> set (elements island)" and op: "f e = Open"
  shows "solveLinear f (removeElement e island) = solveLinear f island"
proof -
  let ?es = "elements island"
  let ?es' = "filter (\<lambda>e'. e' \<noteq> e) ?es"
  have ids: "distinct (map elementId ?es)" using wf by (simp add: wellFormed_def)
  have us: "unknowns f (removeElement e island) = unknowns f island"
  proof -
    have "filter (\<lambda>e'. isVoltageSource (f e')) ?es' = filter (\<lambda>e'. isVoltageSource (f e')) ?es"
      using op by (intro filter_remove) simp
    then show ?thesis by (simp add: unknowns_def removeElement_def)
  qed
  have sys: "assemble f ?es' = assemble f ?es"
    unfolding assemble_def using op by (rule fold_stamp_remove [where f = f and e = e])
  have cur: "(case find (\<lambda>e'. elementId e' = k) ?es' of None \<Rightarrow> 0
               | Some e' \<Rightarrow> branchCurrent \<rho> (f e') e')
           = (case find (\<lambda>e'. elementId e' = k) ?es of None \<Rightarrow> 0
               | Some e' \<Rightarrow> branchCurrent \<rho> (f e') e')" for k \<rho>
  proof (cases "k = elementId e")
    case True
    then show ?thesis
      using find_removed [OF ids e] find_by_id [OF ids e] op
      by (simp add: branchCurrent_def)
  next
    case False
    then have "find (\<lambda>e'. elementId e' = k) ?es' = find (\<lambda>e'. elementId e' = k) ?es"
      by (intro find_filter_other) auto
    then show ?thesis by simp
  qed
  show ?thesis
    unfolding solveLinear_def us
    by (simp add: removeElement_def sys cur Let_def split: option.splits)
qed

lemma converged_remove:
  "\<not> nonOhmic e \<Longrightarrow> converged P (removeElement e island) guess sol = converged P island guess sol"
proof -
  assume "\<not> nonOhmic e"
  then have "filter nonOhmic (filter (\<lambda>e'. e' \<noteq> e) (elements island))
               = filter nonOhmic (elements island)"
    by (rule filter_remove)
  then show ?thesis by (simp add: converged_def removeElement_def)
qed

lemma iterate_remove_open_switch:
  "wellFormed island \<Longrightarrow> e \<in> set (elements island) \<Longrightarrow> kind e = Switch False \<Longrightarrow>
   iterate P dt t (removeElement e island) n guess = iterate P dt t island n guess"
proof (induction P dt t island n guess rule: iterate.induct)
  case (1 P dt t island n guess)
  note wf = "1.prems"(1) and e = "1.prems"(2) and sw = "1.prems"(3)
  let ?island' = "removeElement e island"
  have sl: "solveLinear (stampOf P dt t guess) ?island' = solveLinear (stampOf P dt t guess) island"
    by (rule solveLinear_remove_open [OF wf e]) (rule stampOf_open_switch [OF sw])
  have no: "\<not> nonOhmic e" using sw by (simp add: nonOhmic_def)
  show ?case
  proof (cases "solveLinear (stampOf P dt t guess) island")
    case None
    then show ?thesis
      by (simp add: iterate.simps [of P dt t ?island' n] iterate.simps [of P dt t island n] sl)
  next
    case (Some sol)
    show ?thesis
    proof (cases "converged P island guess sol \<or> maxIterations P \<le> Suc n")
      case True
      then show ?thesis
        using Some
        by (auto simp: iterate.simps [of P dt t ?island' n] iterate.simps [of P dt t island n] sl
            converged_remove [OF no])
    next
      case False
      then have "iterate P dt t ?island' (Suc n) (elementCurrents sol)
                   = iterate P dt t island (Suc n) (elementCurrents sol)"
        using "1.IH" [OF Some _ _ wf e sw] by simp
      then show ?thesis
        using Some False
        by (simp add: iterate.simps [of P dt t ?island' n] iterate.simps [of P dt t island n] sl
            converged_remove [OF no])
    qed
  qed
qed

subsection \<open>Example circuits\<close>

text \<open>
  Constants for the examples: the floor resistance and the tolerance that the
  specification gives by example, a resistance curve for the real bulb that grows with
  the current, and a cap of two iterations.
\<close>

definition exampleParams :: SolverParams where
  "exampleParams = \<lparr>MIN_RESISTANCE = 1 / 10 ^ 8, MAX_RESISTANCE = 10 ^ 9,
     bulbResistance = (\<lambda>i. 10 + \<bar>i\<bar>), tolerance = 1 / 10 ^ 6, maxIterations = 2\<rparr>"

text \<open>An element with no history: previous voltage and current are 0.\<close>

definition newElement :: "nat \<Rightarrow> nat \<Rightarrow> nat \<Rightarrow> ElementKind \<Rightarrow> Element" where
  "newElement k s t kd =
     \<lparr>elementId = k, startId = s, endId = t, kind = kd, previousVoltage = 0, previousCurrent = 0\<rparr>"

text \<open>
  Section 8 of the specification, series resistors: a 9 V battery across 10 and 20 ohms.
\<close>

definition seriesResistors :: Island where
  "seriesResistors = \<lparr>vertices = [0, 1, 2],
     elements = [newElement 0 0 1 (Battery 9), newElement 1 1 2 (Resistor 10),
                 newElement 2 2 0 (Resistor 20)]\<rparr>"

text \<open>
  Section 8 of the specification, parallel resistors: two resistors of 10 ohms across a
  9 V battery. An open switch is added across the battery.
\<close>

definition parallelResistors :: Island where
  "parallelResistors = \<lparr>vertices = [0, 1],
     elements = [newElement 0 0 1 (Battery 9), newElement 1 1 0 (Resistor 10),
                 newElement 2 1 0 (Resistor 10), newElement 3 1 0 (Switch False)]\<rparr>"

text \<open>A 9 V battery across a real, non-ohmic light bulb.\<close>

definition bulbLoop :: Island where
  "bulbLoop = \<lparr>vertices = [0, 1],
     elements = [newElement 0 0 1 (Battery 9), newElement 1 1 0 RealLightBulb]\<rparr>"

lemma solveLinear_eval:
  assumes "unknowns f island = us"
    and "denseRows (assemble f (elements island)) us = rows"
    and "gauss (length us) rows = Some x"
  shows "solveLinear f island =
     Some \<lparr>vertexVoltages = (\<lambda>v. assignment us x (NodeVoltage v)),
           elementCurrents =
             (\<lambda>k. case find (\<lambda>e. elementId e = k) (elements island) of
                     None \<Rightarrow> 0
                   | Some e \<Rightarrow> branchCurrent (assignment us x) (f e) e)\<rparr>"
  by (simp add: solveLinear_def assms Let_def)

lemmas eval_defs = newElement_def stampOf_def exampleParams_def clampResistance_def
lemmas stamp_defs = stamp_def Let_def matrix_addEntry matrix_addRhs rhs_addEntry rhs_addRhs
  emptySystem_def

text \<open>
  The series circuit carries 0.3 A in each element, and the parallel circuit 0.9 A in
  each resistor and 1.8 A in the battery, as section 8 of the specification expects; the
  open switch carries nothing.
\<close>

lemma series_unknowns:
  "unknowns (stampOf exampleParams dt t g) seriesResistors
     = [NodeVoltage 1, NodeVoltage 2, SourceCurrent 0]"
  by (simp add: unknowns_def seriesResistors_def eval_defs)

lemma series_rows:
  "denseRows (assemble (stampOf exampleParams dt t g) (elements seriesResistors))
     [NodeVoltage 1, NodeVoltage 2, SourceCurrent 0]
     = [([1/10, - (1/10), -1], 0), ([- (1/10), 3/20, 0], 0), ([1, 0, 0], 9)]"
  by (simp add: denseRows_def assemble_matrix assemble_rhs seriesResistors_def eval_defs stamp_defs)

lemma series_gauss:
  "gauss (length [NodeVoltage 1, NodeVoltage 2, SourceCurrent 0])
     [([1/10, - (1/10), -1], 0), ([- (1/10), 3/20, 0], 0), ([1, 0, 0], 9)] = Some [9, 6, 3/10]"
  by (simp add: eliminate_def numeral_3_eq_3)

lemma series_solved:
  "\<exists>sol. solveLinear (stampOf exampleParams dt t g) seriesResistors = Some sol
     \<and> map (vertexVoltages sol) [0, 1, 2] = [0, 9, 6]
     \<and> map (elementCurrents sol) [0, 1, 2] = [3/10, 3/10, 3/10]"
  unfolding solveLinear_eval [OF series_unknowns series_rows series_gauss]
  by (simp add: assignment_def branchCurrent_def seriesResistors_def eval_defs)

lemma parallel_unknowns:
  "unknowns (stampOf exampleParams dt t g) parallelResistors = [NodeVoltage 1, SourceCurrent 0]"
  by (simp add: unknowns_def parallelResistors_def eval_defs)

lemma parallel_rows:
  "denseRows (assemble (stampOf exampleParams dt t g) (elements parallelResistors))
     [NodeVoltage 1, SourceCurrent 0] = [([1/5, -1], 0), ([1, 0], 9)]"
  by (simp add: denseRows_def assemble_matrix assemble_rhs parallelResistors_def eval_defs stamp_defs)

lemma parallel_gauss:
  "gauss (length [NodeVoltage 1, SourceCurrent 0]) [([1/5, -1], 0), ([1, 0], 9)] = Some [9, 9/5]"
  by (simp add: eliminate_def numeral_2_eq_2)

lemma parallel_solved:
  "\<exists>sol. solveLinear (stampOf exampleParams dt t g) parallelResistors = Some sol
     \<and> map (vertexVoltages sol) [0, 1] = [0, 9]
     \<and> map (elementCurrents sol) [0, 1, 2, 3] = [9/5, 9/10, 9/10, 0]"
  unfolding solveLinear_eval [OF parallel_unknowns parallel_rows parallel_gauss]
  by (simp add: assignment_def branchCurrent_def parallelResistors_def eval_defs)

lemma no_bulb_converges:
  assumes "filter nonOhmic (elements island) = []"
    and "solveLinear (stampOf P dt t (initialGuess island)) island = Some sol"
  shows "solveIsland P dt t island = (Converged sol, 1)"
  by (simp add: solveIsland_def iterate.simps [of P dt t island 0] assms converged_def)

lemma bulb_unknowns:
  "unknowns (stampOf exampleParams dt t g) bulbLoop = [NodeVoltage 1, SourceCurrent 0]"
  by (simp add: unknowns_def bulbLoop_def eval_defs)

lemma bulb_rows:
  "g 1 = c \<Longrightarrow> 0 \<le> c \<Longrightarrow> c \<le> 1 \<Longrightarrow>
   denseRows (assemble (stampOf exampleParams dt t g) (elements bulbLoop))
     [NodeVoltage 1, SourceCurrent 0] = [([1 / (10 + c), -1], 0), ([1, 0], 9)]"
  by (simp add: denseRows_def assemble_matrix assemble_rhs bulbLoop_def eval_defs stamp_defs)

lemma bulb_gauss:
  "0 \<le> c \<Longrightarrow> c \<le> 1 \<Longrightarrow>
   gauss (length [NodeVoltage 1, SourceCurrent 0]) [([1 / (10 + c), -1], 0), ([1, 0], 9)]
     = Some [9, 9 / (10 + c)]"
  by (simp add: eliminate_def numeral_2_eq_2 field_simps)

lemma bulb_solved:
  assumes "g 1 = c" and "0 \<le> c" and "c \<le> 1"
  shows "\<exists>sol. solveLinear (stampOf exampleParams dt t g) bulbLoop = Some sol
     \<and> elementCurrents sol 0 = 9 / (10 + c) \<and> elementCurrents sol 1 = 9 / (10 + c)"
  unfolding solveLinear_eval [OF bulb_unknowns bulb_rows [where g = g and c = c, OF assms]
      bulb_gauss [OF assms(2,3)]]
  using assms
  by (simp add: assignment_def branchCurrent_def bulbLoop_def eval_defs)

subsection \<open>The claims about the solver\<close>

text \<open>
  Claim C1. In every solved state of an island (the driver has converged, or has stopped
  at the cap with its last solution), at every vertex of the island, the reference vertex
  included, the currents of the elements that touch the vertex sum to zero: exactly, so
  within the tolerance of \<open>1e-6\<close>. The island is well formed: its vertices and elements
  have an identity and each element's two vertices are vertices of the island.
\<close>

theorem kirchhoff_current_law:
  assumes "wellFormed island"
    and "fst (solveIsland P dt t island) = Converged sol
         \<or> fst (solveIsland P dt t island) = Diverged sol"
    and "v \<in> set (vertices island)"
  shows "netCurrent (elementCurrents sol) (elements island) v = 0
         \<and> \<bar>netCurrent (elementCurrents sol) (elements island) v\<bar> \<le> 1 / 10 ^ 6"
proof -
  obtain out k where r: "iterate P dt t island 0 (initialGuess island) = (out, k)"
    by (cases "iterate P dt t island 0 (initialGuess island)")
  with assms(2) have "out = Converged sol \<or> out = Diverged sol"
    by (simp add: solveIsland_def)
  with r obtain g where "solveLinear (stampOf P dt t g) island = Some sol"
    using iterate_solution by blast
  then have "netCurrent (elementCurrents sol) (elements island) v = 0"
    using kcl_every_vertex [OF assms(1) _ assms(3)] by blast
  then show ?thesis by simp
qed

theorem kirchhoff_current_law_witness:
  "wellFormed seriesResistors \<and>
   (\<exists>sol. fst (solveIsland exampleParams 1 0 seriesResistors) = Converged sol
      \<and> map (elementCurrents sol) [0, 1, 2] = [3/10, 3/10, 3/10]
      \<and> netCurrent (elementCurrents sol) (elements seriesResistors) 0 = 0
      \<and> netCurrent (elementCurrents sol) (elements seriesResistors) 1 = 0
      \<and> netCurrent (elementCurrents sol) (elements seriesResistors) 2 = 0)"
proof -
  from series_solved [of 1 0 "initialGuess seriesResistors"] obtain sol where
    s: "solveLinear (stampOf exampleParams 1 0 (initialGuess seriesResistors)) seriesResistors
           = Some sol
        \<and> map (vertexVoltages sol) [0, 1, 2] = [0, 9, 6]
        \<and> map (elementCurrents sol) [0, 1, 2] = [3/10, 3/10, 3/10]"
    by (rule exE)
  from s have
    sl: "solveLinear (stampOf exampleParams 1 0 (initialGuess seriesResistors)) seriesResistors
           = Some sol"
    and cur: "map (elementCurrents sol) [0, 1, 2] = [3/10, 3/10, 3/10]"
    by simp_all
  have wf: "wellFormed seriesResistors"
    by (simp add: wellFormed_def seriesResistors_def newElement_def)
  have "filter nonOhmic (elements seriesResistors) = []"
    by (simp add: seriesResistors_def newElement_def nonOhmic_def)
  then have out: "solveIsland exampleParams 1 0 seriesResistors = (Converged sol, 1)"
    using sl by (rule no_bulb_converges)
  then have solved: "fst (solveIsland exampleParams 1 0 seriesResistors) = Converged sol
      \<or> fst (solveIsland exampleParams 1 0 seriesResistors) = Diverged sol"
    by simp
  have "netCurrent (elementCurrents sol) (elements seriesResistors) v = 0"
    if "v \<in> set (vertices seriesResistors)" for v
    using kirchhoff_current_law [OF wf solved that] by simp
  then have "netCurrent (elementCurrents sol) (elements seriesResistors) 0 = 0
      \<and> netCurrent (elementCurrents sol) (elements seriesResistors) 1 = 0
      \<and> netCurrent (elementCurrents sol) (elements seriesResistors) 2 = 0"
    by (simp add: seriesResistors_def)
  with wf out cur show ?thesis by auto
qed

lemma stampOf_cong_guess:
  "(nonOhmic e \<Longrightarrow> g (elementId e) = g' (elementId e)) \<Longrightarrow>
   stampOf P dt t g e = stampOf P dt t g' e"
  by (cases "kind e") (simp_all add: stampOf_def nonOhmic_def)

lemma fold_stamp_cong:
  "(\<And>e. e \<in> set es \<Longrightarrow> f e = f' e) \<Longrightarrow>
   fold (\<lambda>e. stamp (f e) e) es sys = fold (\<lambda>e. stamp (f' e) e) es sys"
  by (induction es arbitrary: sys) simp_all

lemma find_in_set: "find Q xs = Some x \<Longrightarrow> x \<in> set xs"
  by (induction xs) (auto split: if_splits)

lemma solveLinear_cong:
  assumes "\<And>e. e \<in> set (elements island) \<Longrightarrow> f e = f' e"
  shows "solveLinear f island = solveLinear f' island"
proof -
  have us: "unknowns f island = unknowns f' island"
  proof -
    have "filter (\<lambda>e. isVoltageSource (f e)) (elements island)
            = filter (\<lambda>e. isVoltageSource (f' e)) (elements island)"
      by (rule filter_cong [OF refl]) (simp add: assms)
    then show ?thesis by (simp add: unknowns_def)
  qed
  have sys: "assemble f (elements island) = assemble f' (elements island)"
    unfolding assemble_def by (rule fold_stamp_cong) (rule assms)
  have cur: "(case find (\<lambda>e. elementId e = k) (elements island) of None \<Rightarrow> 0
               | Some e \<Rightarrow> branchCurrent \<rho> (f e) e)
           = (case find (\<lambda>e. elementId e = k) (elements island) of None \<Rightarrow> 0
               | Some e \<Rightarrow> branchCurrent \<rho> (f' e) e)" for k \<rho>
    by (auto split: option.splits dest: find_in_set simp: assms)
  show ?thesis
    unfolding solveLinear_def us sys
    by (simp add: cur Let_def split: option.splits)
qed

lemma converged_cong_guess:
  assumes "\<And>e. e \<in> set (elements island) \<Longrightarrow> nonOhmic e \<Longrightarrow> g (elementId e) = g' (elementId e)"
  shows "converged P island g sol = converged P island g' sol"
  unfolding converged_def list_all_iff using assms by auto

lemma iterate_cong_guess:
  assumes "\<And>e. e \<in> set (elements island) \<Longrightarrow> nonOhmic e \<Longrightarrow> g (elementId e) = g' (elementId e)"
  shows "iterate P dt t island n g = iterate P dt t island n g'"
proof -
  have "solveLinear (stampOf P dt t g) island = solveLinear (stampOf P dt t g') island"
    by (rule solveLinear_cong, rule stampOf_cong_guess) (rule assms)
  moreover have "converged P island g sol = converged P island g' sol" for sol
    by (rule converged_cong_guess) (rule assms)
  ultimately show ?thesis
    by (simp add: iterate.simps [of P dt t island n g] iterate.simps [of P dt t island n g']
        split: option.splits)
qed

lemma initialGuess_remove:
  "k \<noteq> elementId e \<Longrightarrow> initialGuess (removeElement e island) k = initialGuess island k"
proof -
  assume "k \<noteq> elementId e"
  then have "find (\<lambda>e'. elementId e' = k) (filter (\<lambda>e'. e' \<noteq> e) (elements island))
               = find (\<lambda>e'. elementId e' = k) (elements island)"
    by (intro find_filter_other) auto
  then show ?thesis by (simp add: initialGuess_def removeElement_def)
qed

text \<open>
  Claim C4. An open switch adds nothing to the linear system, whatever the other elements
  and the source voltages are; in every solved state the current through it is zero; and
  the island is solved exactly as it is without the switch, its two vertices being left
  unconnected by it.
\<close>

theorem open_switch_no_current:
  assumes "wellFormed island" and "e \<in> set (elements island)" and "kind e = Switch False"
  shows "stamp (stampOf P dt t guess e) e sys = sys
         \<and> (fst (solveIsland P dt t island) = Converged sol
              \<or> fst (solveIsland P dt t island) = Diverged sol
             \<longrightarrow> elementCurrents sol (elementId e) = 0)
         \<and> solveIsland P dt t (removeElement e island) = solveIsland P dt t island"
proof -
  have op: "stampOf P dt t g e = Open" for g
    using assms(3) by (rule stampOf_open_switch)
  have a: "stamp (stampOf P dt t guess e) e sys = sys"
    by (simp add: op stamp_Open)
  have b: "elementCurrents sol (elementId e) = 0"
    if "fst (solveIsland P dt t island) = Converged sol
        \<or> fst (solveIsland P dt t island) = Diverged sol"
  proof -
    obtain out k where r: "iterate P dt t island 0 (initialGuess island) = (out, k)"
      by (cases "iterate P dt t island 0 (initialGuess island)")
    with that have "out = Converged sol \<or> out = Diverged sol"
      by (simp add: solveIsland_def)
    with r obtain g where sl: "solveLinear (stampOf P dt t g) island = Some sol"
      using iterate_solution by blast
    show ?thesis
      by (rule open_current_linear [OF assms(1) sl assms(2) op])
  qed
  have ids: "distinct (map elementId (elements island))"
    using assms(1) by (simp add: wellFormed_def)
  have no: "\<not> nonOhmic e" using assms(3) by (simp add: nonOhmic_def)
  have "iterate P dt t island 0 (initialGuess (removeElement e island))
          = iterate P dt t island 0 (initialGuess island)"
  proof (rule iterate_cong_guess)
    fix e' assume e': "e' \<in> set (elements island)" and n': "nonOhmic e'"
    have "elementId e' \<noteq> elementId e"
    proof
      assume "elementId e' = elementId e"
      with ids e' assms(2) have "e' = e"
        by (auto simp: distinct_map inj_on_def)
      with n' no show False by simp
    qed
    then show "initialGuess (removeElement e island) (elementId e') = initialGuess island (elementId e')"
      by (rule initialGuess_remove)
  qed
  then have c: "solveIsland P dt t (removeElement e island) = solveIsland P dt t island"
    by (simp add: solveIsland_def iterate_remove_open_switch [OF assms])
  from a b c show ?thesis by blast
qed

theorem open_switch_no_current_witness:
  "wellFormed parallelResistors
   \<and> newElement 3 1 0 (Switch False) \<in> set (elements parallelResistors)
   \<and> (\<exists>sol. fst (solveIsland exampleParams 1 0 parallelResistors) = Converged sol
        \<and> elementCurrents sol 0 = 9/5 \<and> elementCurrents sol 3 = 0)
   \<and> solveIsland exampleParams 1 0 (removeElement (newElement 3 1 0 (Switch False)) parallelResistors)
       = solveIsland exampleParams 1 0 parallelResistors"
proof -
  let ?sw = "newElement 3 1 0 (Switch False)"
  from parallel_solved [of 1 0 "initialGuess parallelResistors"] obtain sol where
    s: "solveLinear (stampOf exampleParams 1 0 (initialGuess parallelResistors)) parallelResistors
           = Some sol
        \<and> map (vertexVoltages sol) [0, 1] = [0, 9]
        \<and> map (elementCurrents sol) [0, 1, 2, 3] = [9/5, 9/10, 9/10, 0]"
    by (rule exE)
  from s have
    sl: "solveLinear (stampOf exampleParams 1 0 (initialGuess parallelResistors)) parallelResistors
           = Some sol"
    and cur: "map (elementCurrents sol) [0, 1, 2, 3] = [9/5, 9/10, 9/10, 0]"
    by simp_all
  have wf: "wellFormed parallelResistors"
    by (simp add: wellFormed_def parallelResistors_def newElement_def)
  have sw: "?sw \<in> set (elements parallelResistors)"
    by (simp add: parallelResistors_def)
  have k: "kind ?sw = Switch False"
    by (simp add: newElement_def)
  have "filter nonOhmic (elements parallelResistors) = []"
    by (simp add: parallelResistors_def newElement_def nonOhmic_def)
  then have out: "solveIsland exampleParams 1 0 parallelResistors = (Converged sol, 1)"
    using sl by (rule no_bulb_converges)
  have "elementCurrents sol (elementId ?sw) = 0"
    using open_switch_no_current [OF wf sw k, of exampleParams 1 0 "\<lambda>k. 0" emptySystem sol] out
    by simp
  then have "elementCurrents sol 3 = 0"
    by (simp add: newElement_def)
  moreover have "solveIsland exampleParams 1 0 (removeElement ?sw parallelResistors)
       = solveIsland exampleParams 1 0 parallelResistors"
    using open_switch_no_current [OF wf sw k, of exampleParams 1 0 "\<lambda>k. 0" emptySystem sol]
    by simp
  ultimately show ?thesis
    using wf sw out cur by auto
qed

text \<open>
  Claim C5. The driver always returns: it is a total function, its result is a solution
  or the mark of a singular island, never an error, and it does at most as many solves as
  the cap allows (one when the cap is 0). When none of the iterations up to the cap
  converges, it stops at the cap and returns the solution of the last iteration as
  \<open>Diverged\<close>.
\<close>

theorem iteration_cap:
  "snd (solveIsland P dt t island) \<le> max 1 (maxIterations P)
   \<and> (1 \<le> maxIterations P \<and>
       (\<forall>j<maxIterations P.
          notConvergedAt P dt t island ((nextGuess P dt t island ^^ j) (initialGuess island)))
      \<longrightarrow> (\<exists>sol. solveLinear (stampOf P dt t
                     ((nextGuess P dt t island ^^ (maxIterations P - 1)) (initialGuess island)))
                     island = Some sol
                \<and> solveIsland P dt t island = (Diverged sol, maxIterations P)))"
proof -
  have "snd (solveIsland P dt t island) \<le> max 1 (maxIterations P)"
    using iterate_count [of P dt t island 0 "initialGuess island"]
    by (simp add: solveIsland_def)
  moreover have "\<exists>sol. solveLinear (stampOf P dt t
                     ((nextGuess P dt t island ^^ (maxIterations P - 1)) (initialGuess island)))
                     island = Some sol
                \<and> solveIsland P dt t island = (Diverged sol, maxIterations P)"
    if "1 \<le> maxIterations P"
      and "\<forall>j<maxIterations P.
          notConvergedAt P dt t island ((nextGuess P dt t island ^^ j) (initialGuess island))"
    using iterate_diverges [of 0 P dt t island "initialGuess island"] that
    by (simp add: solveIsland_def)
  ultimately show ?thesis by blast
qed

theorem iteration_cap_witness:
  "\<exists>sol. solveIsland exampleParams 1 0 bulbLoop = (Diverged sol, 2)
      \<and> elementCurrents sol 1 = 90 / 109
      \<and> snd (solveIsland exampleParams 1 0 bulbLoop) \<le> 2"
proof -
  let ?g0 = "initialGuess bulbLoop"
  let ?next = "nextGuess exampleParams 1 0 bulbLoop"
  have bulb: "filter nonOhmic (elements bulbLoop) = [newElement 1 1 0 RealLightBulb]"
    by (simp add: bulbLoop_def newElement_def nonOhmic_def)
  have g0: "?g0 1 = 0"
    by (simp add: initialGuess_def bulbLoop_def newElement_def)
  have "\<exists>sol. solveLinear (stampOf exampleParams 1 0 ?g0) bulbLoop = Some sol
         \<and> elementCurrents sol 0 = 9 / 10 \<and> elementCurrents sol 1 = 9 / 10"
    using bulb_solved [where g = ?g0 and c = 0 and dt = 1 and t = 0, OF g0] by simp
  then obtain s0 where
    s0: "solveLinear (stampOf exampleParams 1 0 ?g0) bulbLoop = Some s0
         \<and> elementCurrents s0 0 = 9 / 10 \<and> elementCurrents s0 1 = 9 / 10"
    by (rule exE)
  have next0: "?next ?g0 = elementCurrents s0"
    by (simp add: nextGuess_def s0)
  have g1: "elementCurrents s0 1 = 9 / 10"
    using s0 by simp
  have "\<exists>sol. solveLinear (stampOf exampleParams 1 0 (elementCurrents s0)) bulbLoop = Some sol
         \<and> elementCurrents sol 0 = 90 / 109 \<and> elementCurrents sol 1 = 90 / 109"
    using bulb_solved [where g = "elementCurrents s0" and c = "9 / 10" and dt = 1 and t = 0, OF g1]
    by simp
  then obtain s1 where
    s1: "solveLinear (stampOf exampleParams 1 0 (elementCurrents s0)) bulbLoop = Some s1
         \<and> elementCurrents s1 0 = 90 / 109 \<and> elementCurrents s1 1 = 90 / 109"
    by (rule exE)
  have nc0: "notConvergedAt exampleParams 1 0 bulbLoop ?g0"
    using s0 g0
    by (simp add: notConvergedAt_def converged_def bulb) (simp add: newElement_def exampleParams_def)
  have nc1: "notConvergedAt exampleParams 1 0 bulbLoop (?next ?g0)"
    using s1 g1
    by (simp add: next0 notConvergedAt_def converged_def bulb)
       (simp add: newElement_def exampleParams_def)
  have cap: "maxIterations exampleParams = 2"
    by (simp add: exampleParams_def)
  have all: "\<forall>j<maxIterations exampleParams.
      notConvergedAt exampleParams 1 0 bulbLoop ((?next ^^ j) ?g0)"
  proof (intro allI impI)
    fix j assume "j < maxIterations exampleParams"
    then have "j = 0 \<or> j = 1" using cap by auto
    then show "notConvergedAt exampleParams 1 0 bulbLoop ((?next ^^ j) ?g0)"
      using nc0 nc1 by auto
  qed
  from iteration_cap [of exampleParams 1 0 bulbLoop] all cap
  obtain sol where
    last: "solveLinear (stampOf exampleParams 1 0 ((?next ^^ (maxIterations exampleParams - 1)) ?g0))
             bulbLoop = Some sol"
    and out: "solveIsland exampleParams 1 0 bulbLoop = (Diverged sol, maxIterations exampleParams)"
    by auto
  have "(?next ^^ (maxIterations exampleParams - 1)) ?g0 = elementCurrents s0"
    by (simp add: cap next0)
  with last s1 have "sol = s1" by simp
  then have "elementCurrents sol 1 = 90 / 109"
    using s1 by simp
  then show ?thesis
    using out cap by simp
qed

end
